theory Spec2Isabelle
  imports Main
begin

section \<open>Sitemap validator: a shallow embedding of \<^verbatim>\<open>sitemap_validator.py\<close>\<close>

text \<open>
  The class \<^verbatim>\<open>SitemapValidator\<close> is modelled by explicit state passing: every method takes
  the object \<open>self\<close> and returns the updated object. Everything outside the program (the
  HTTP library, the XML parser, the URL parser) is a field of the record \<open>env\<close>; a call
  that may raise returns a sum whose left injection is the exception. Every HTTP request
  a method issues is returned, in order, as a list beside its result, so that "no network
  call" and "which header was sent" are statements about that list.

  Python strings are lists of characters; only the code points below 256 are
  represented. Python integers are \<open>int\<close>.
\<close>

subsection \<open>Strings\<close>

definition isspace :: "char \<Rightarrow> bool" where
  \<comment> \<open>\<^verbatim>\<open>str.isspace\<close> on the code points below 256\<close>
  "isspace c =
     (let n = (of_char c :: nat)
      in (9 \<le> n \<and> n \<le> 13) \<or> (28 \<le> n \<and> n \<le> 32) \<or> n = 133 \<or> n = 160)"

definition strip :: "string \<Rightarrow> string" where
  \<comment> \<open>\<^verbatim>\<open>str.strip()\<close>\<close>
  "strip s = rev (dropWhile isspace (rev (dropWhile isspace s)))"

definition lower_char :: "char \<Rightarrow> char" where
  "lower_char c =
     (let n = (of_char c :: nat)
      in if (65 \<le> n \<and> n \<le> 90) \<or> (192 \<le> n \<and> n \<le> 222 \<and> n \<noteq> 215)
         then char_of (n + 32) else c)"

definition lower :: "string \<Rightarrow> string" where
  \<comment> \<open>\<^verbatim>\<open>str.lower()\<close>\<close>
  "lower s = map lower_char s"

fun startswith :: "string \<Rightarrow> string \<Rightarrow> bool" where
  "startswith s [] = True"
| "startswith [] (p # ps) = False"
| "startswith (c # cs) (p # ps) = (c = p \<and> startswith cs ps)"

fun contains :: "string \<Rightarrow> string \<Rightarrow> bool" where
  \<comment> \<open>\<^verbatim>\<open>sub in s\<close>\<close>
  "contains sub [] = (sub = [])"
| "contains sub (c # cs) = (startswith (c # cs) sub \<or> contains sub cs)"

definition digit_char :: "nat \<Rightarrow> char" where
  "digit_char d = char_of (48 + d)"

fun str_nat :: "nat \<Rightarrow> string" where
  "str_nat n = (if n < 10 then [digit_char n] else str_nat (n div 10) @ [digit_char (n mod 10)])"

declare str_nat.simps [simp del]

definition str_int :: "int \<Rightarrow> string" where
  \<comment> \<open>\<^verbatim>\<open>str(i)\<close>, as the f-strings format a status code\<close>
  "str_int i = (if i < 0 then CHR ''-'' # str_nat (nat (- i)) else str_nat (nat i))"

definition truthy :: "string option \<Rightarrow> bool" where
  \<comment> \<open>the truth value of \<^verbatim>\<open>element.text\<close>: neither \<^verbatim>\<open>None\<close> nor the empty string\<close>
  "truthy t = (case t of None \<Rightarrow> False | Some s \<Rightarrow> s \<noteq> [])"

subsection \<open>Exceptions\<close>

text \<open>
  The classes the handlers of the source tell apart: \<^verbatim>\<open>requests.exceptions.RequestException\<close>
  (with its subclasses for timeouts, connection and TLS failures) is the only one
  \<^verbatim>\<open>_check_url\<close> catches; \<^verbatim>\<open>validate\<close> and \<^verbatim>\<open>_validate_urls\<close> catch \<^verbatim>\<open>Exception\<close>,
  that is, every class below. The string is \<^verbatim>\<open>str(e)\<close>.
\<close>

datatype exn_class = RequestException | ParseError | ValueError | OtherException

datatype exn = Exn (exn_class: exn_class) (message: string)

subsection \<open>The XML tree, HTTP messages and the environment\<close>

datatype element = Element (elem_tag: string) (elem_text: "string option") (elem_children: "element list")

fun iter :: "element \<Rightarrow> element list" where
  \<comment> \<open>\<^verbatim>\<open>Element.iter()\<close>: the element and its descendants in document order\<close>
  "iter (Element t x cs) = Element t x cs # concat (map iter cs)"

definition sm :: "string \<Rightarrow> string" where
  \<comment> \<open>the tag a name with the prefix \<^verbatim>\<open>sm:\<close> stands for under \<^verbatim>\<open>namespaces\<close>\<close>
  "sm name = ''{http://www.sitemaps.org/schemas/sitemap/0.9}'' @ name"

definition findall :: "element \<Rightarrow> string \<Rightarrow> element list" where
  \<comment> \<open>\<^verbatim>\<open>root.findall('.//sm:name', namespaces)\<close>: the proper descendants with that tag\<close>
  "findall root name = filter (\<lambda>e. elem_tag e = sm name) (concat (map iter (elem_children root)))"

definition find_child :: "element \<Rightarrow> string \<Rightarrow> element option" where
  \<comment> \<open>\<^verbatim>\<open>element.find('./sm:name', namespaces)\<close>: the first child with that tag\<close>
  "find_child element name = List.find (\<lambda>c. elem_tag c = sm name) (elem_children element)"

datatype http_method = HEAD | GET

record request =
  meth :: http_method
  req_url :: string
  req_user_agent :: string
  req_timeout :: int
  req_allow_redirects :: bool

record response =
  status_code :: int
  content_type_header :: "string option"
  content :: string

record env =
  send :: "request \<Rightarrow> exn + response"
  fromstring :: "string \<Rightarrow> exn + element"
  urlparse :: "string \<Rightarrow> exn + string \<times> string"

text \<open>
  \<open>send\<close> is \<^verbatim>\<open>requests.get\<close> and \<^verbatim>\<open>requests.head\<close>, \<open>fromstring\<close> is \<^verbatim>\<open>ET.fromstring\<close>,
  \<open>urlparse\<close> gives the \<^verbatim>\<open>scheme\<close> and \<^verbatim>\<open>netloc\<close> of \<^verbatim>\<open>urllib.parse.urlparse\<close>. The answer
  to a request depends on the request alone.
\<close>

definition requests_get :: "string \<Rightarrow> string \<Rightarrow> int \<Rightarrow> request" where
  \<comment> \<open>\<^verbatim>\<open>requests.get(url, headers=..., timeout=...)\<close>\<close>
  "requests_get url ua t =
     \<lparr>meth = GET, req_url = url, req_user_agent = ua, req_timeout = t, req_allow_redirects = True\<rparr>"

definition requests_head :: "string \<Rightarrow> string \<Rightarrow> int \<Rightarrow> request" where
  \<comment> \<open>\<^verbatim>\<open>requests.head(url, headers=..., timeout=..., allow_redirects=True)\<close>\<close>
  "requests_head url ua t =
     \<lparr>meth = HEAD, req_url = url, req_user_agent = ua, req_timeout = t, req_allow_redirects = True\<rparr>"

subsection \<open>The validator object\<close>

record url_data =
  loc :: string
  lastmod :: "string option"
  changefreq :: "string option"
  priority :: "string option"

record url_result = url_data +
  is_valid :: bool

record report =
  valid_urls :: int
  invalid_urls :: int
  total_urls :: int
  errors :: "string list"

record validator =
  sitemap_url :: string
  timeout :: int
  max_workers :: int
  user_agent :: string
  results :: report
  all_processed_urls :: "url_result list"

definition default_user_agent :: string where
  "default_user_agent = ''SitemapValidator/1.0''"

definition init :: "string \<Rightarrow> int \<Rightarrow> int \<Rightarrow> string \<Rightarrow> validator" where
  \<comment> \<open>\<^verbatim>\<open>__init__(self, sitemap_url, timeout, max_workers, user_agent)\<close>\<close>
  "init url t w ua =
     \<lparr>sitemap_url = url, timeout = t, max_workers = w, user_agent = ua,
      results = \<lparr>valid_urls = 0, invalid_urls = 0, total_urls = 0, errors = []\<rparr>,
      all_processed_urls = []\<rparr>"

definition child_validator :: "validator \<Rightarrow> string \<Rightarrow> validator" where
  \<comment> \<open>\<^verbatim>\<open>SitemapValidator(loc.text, self.timeout, self.max_workers)\<close>: the fourth
      argument takes its default\<close>
  "child_validator self loc_text = init loc_text (timeout self) (max_workers self) default_user_agent"

definition append_error :: "validator \<Rightarrow> string \<Rightarrow> validator" where
  \<comment> \<open>\<^verbatim>\<open>self.results["errors"].append(msg)\<close>\<close>
  "append_error self msg = self\<lparr>results := (results self)\<lparr>errors := errors (results self) @ [msg]\<rparr>\<rparr>"

definition count_valid :: "validator \<Rightarrow> validator" where
  \<comment> \<open>\<^verbatim>\<open>self.results["valid_urls"] += 1\<close>\<close>
  "count_valid self = self\<lparr>results := (results self)\<lparr>valid_urls := valid_urls (results self) + 1\<rparr>\<rparr>"

definition count_invalid :: "validator \<Rightarrow> validator" where
  \<comment> \<open>\<^verbatim>\<open>self.results["invalid_urls"] += 1\<close>\<close>
  "count_invalid self = self\<lparr>results := (results self)\<lparr>invalid_urls := invalid_urls (results self) + 1\<rparr>\<rparr>"

definition processed :: "validator \<Rightarrow> url_result \<Rightarrow> validator" where
  \<comment> \<open>\<^verbatim>\<open>self._all_processed_urls.append(url_result)\<close>\<close>
  "processed self r = self\<lparr>all_processed_urls := all_processed_urls self @ [r]\<rparr>"

definition merge_results :: "validator \<Rightarrow> report \<Rightarrow> validator" where
  \<comment> \<open>the four statements under \<^verbatim>\<open># Merge results\<close>\<close>
  "merge_results self child_results =
     self\<lparr>results :=
       \<lparr>valid_urls = valid_urls (results self) + valid_urls child_results,
        invalid_urls = invalid_urls (results self) + invalid_urls child_results,
        total_urls = total_urls (results self) + total_urls child_results,
        errors = errors (results self) @ errors child_results\<rparr>\<rparr>"

subsection \<open>\<^verbatim>\<open>_get_tag_text\<close> and the leaf entries\<close>

definition get_tag_text :: "element \<Rightarrow> string \<Rightarrow> string option" where
  "get_tag_text element name =
     (case find_child element name of
        None \<Rightarrow> None
      | Some tg \<Rightarrow>
          (case elem_text tg of
             None \<Rightarrow> None
           | Some s \<Rightarrow> if s = [] then None else Some (strip s)))"

definition has_loc_text :: "element \<Rightarrow> bool" where
  \<comment> \<open>\<^verbatim>\<open>loc is not None and loc.text\<close>, for \<^verbatim>\<open>loc = element.find('./sm:loc', namespaces)\<close>\<close>
  "has_loc_text element =
     (case find_child element ''loc'' of None \<Rightarrow> False | Some l \<Rightarrow> truthy (elem_text l))"

definition loc_text :: "element \<Rightarrow> string" where
  \<comment> \<open>\<^verbatim>\<open>loc.text\<close>, read only where \<open>has_loc_text\<close> holds\<close>
  "loc_text element =
     (case find_child element ''loc'' of
        None \<Rightarrow> []
      | Some l \<Rightarrow> (case elem_text l of None \<Rightarrow> [] | Some s \<Rightarrow> s))"

fun url_entries :: "element list \<Rightarrow> url_data list" where
  \<comment> \<open>the loop \<^verbatim>\<open>for url in url_tags\<close> of \<^verbatim>\<open>_parse_sitemap\<close>\<close>
  "url_entries [] = []"
| "url_entries (url # url_tags) =
     (if has_loc_text url
      then \<lparr>loc = strip (loc_text url),
            lastmod = get_tag_text url ''lastmod'',
            changefreq = get_tag_text url ''changefreq'',
            priority = get_tag_text url ''priority''\<rparr> # url_entries url_tags
      else url_entries url_tags)"

subsection \<open>\<^verbatim>\<open>_check_url\<close>\<close>

text \<open>
  The result of \<^verbatim>\<open>_check_url\<close> is the exception that leaves it, if any, the updated object
  and the requests it sent. \<open>except_request\<close> is the clause
  \<^verbatim>\<open>except requests.exceptions.RequestException\<close> followed by the last statement of the
  method; an exception of another class leaves the method, and the object is as it was
  when the exception was raised. \<open>classify\<close> is the final \<^verbatim>\<open>if\<close> on the status code,
  again followed by the last statement.
\<close>

definition except_request ::
  "validator \<Rightarrow> string \<Rightarrow> url_result \<Rightarrow> exn \<Rightarrow> request list \<Rightarrow> exn option \<times> validator \<times> request list" where
  "except_request self url url_result e tr =
     (if exn_class e = RequestException
      then (None,
            processed (append_error (count_invalid self)
              (''Failed to connect to '' @ url @ '': '' @ message e)) url_result,
            tr)
      else (Some e, self, tr))"

definition classify ::
  "validator \<Rightarrow> string \<Rightarrow> url_result \<Rightarrow> response \<Rightarrow> request list \<Rightarrow> exn option \<times> validator \<times> request list" where
  "classify self url url_result response tr =
     (if 200 \<le> status_code response \<and> status_code response < 300
      then (None, processed (count_valid self) (url_result\<lparr>is_valid := True\<rparr>), tr)
      else (None,
            processed (append_error (count_invalid self)
              (''URL returned HTTP '' @ str_int (status_code response) @ '': '' @ url)) url_result,
            tr))"

definition check_url :: "env \<Rightarrow> validator \<Rightarrow> url_data \<Rightarrow> exn option \<times> validator \<times> request list" where
  "check_url env self ud =
     (let url = loc ud;
          url_result = \<lparr>loc = loc ud, lastmod = lastmod ud, changefreq = changefreq ud,
                        priority = priority ud, is_valid = False\<rparr>
      in case urlparse env url of
           Inl e \<Rightarrow> except_request self url url_result e []
         | Inr (scheme, netloc) \<Rightarrow>
             if \<not> (scheme \<noteq> [] \<and> netloc \<noteq> [])
             then (None,
                   processed (append_error (count_invalid self)
                     (''Invalid URL structure: '' @ url)) url_result,
                   [])
             else
               (let head_rq = requests_head url (user_agent self) (timeout self) in
                (case send env head_rq of
                   Inl e \<Rightarrow> except_request self url url_result e [head_rq]
                 | Inr response \<Rightarrow>
                     (if status_code response \<in> set [405, 404, 403]
                      then
                        (let get_rq = requests_get url (user_agent self) (timeout self) in
                         (case send env get_rq of
                            Inl e \<Rightarrow> except_request self url url_result e [head_rq, get_rq]
                          | Inr response' \<Rightarrow>
                              classify self url url_result response' [head_rq, get_rq]))
                      else classify self url url_result response [head_rq]))))"

subsection \<open>\<^verbatim>\<open>_validate_urls\<close>\<close>

text \<open>
  The thread pool runs \<^verbatim>\<open>_check_url\<close> once for every entry. The model runs the workers
  one after the other, in the order of submission, each to its end: one of the
  schedules the pool admits, and the only one for a pool of a single worker. The counters
  do not depend on the schedule as long as every update of the shared object is atomic;
  the order of the error strings of one batch does. An exception that leaves a worker is
  caught at \<^verbatim>\<open>future.result()\<close>. \<^verbatim>\<open>ThreadPoolExecutor\<close> itself raises \<^verbatim>\<open>ValueError\<close> for a
  pool size that is not positive.
\<close>

fun run_workers :: "env \<Rightarrow> validator \<Rightarrow> url_data list \<Rightarrow> validator \<times> request list" where
  "run_workers env self [] = (self, [])"
| "run_workers env self (url # urls) =
     (case check_url env self url of
        (None, self', tr) \<Rightarrow>
          (case run_workers env self' urls of (self'', tr') \<Rightarrow> (self'', tr @ tr'))
      | (Some e, self', tr) \<Rightarrow>
          (case run_workers env
                  (append_error self' (''Error during URL validation: '' @ message e)) urls of
             (self'', tr') \<Rightarrow> (self'', tr @ tr')))"

definition validate_urls :: "env \<Rightarrow> validator \<Rightarrow> url_data list \<Rightarrow> exn option \<times> validator \<times> request list" where
  "validate_urls env self urls =
     (if max_workers self \<le> 0
      then (Some (Exn ValueError ''max_workers must be greater than 0''), self, [])
      else (case run_workers env self urls of (self', tr) \<Rightarrow> (None, self', tr)))"

subsection \<open>\<^verbatim>\<open>validate\<close> and \<^verbatim>\<open>_parse_sitemap\<close>\<close>

text \<open>
  \<^verbatim>\<open>validate\<close> calls \<^verbatim>\<open>_parse_sitemap\<close>, which calls \<^verbatim>\<open>validate\<close> on a new object for every
  child of a sitemap index; nothing bounds the depth, and an index that lists itself
  never finishes. The first argument is the depth of nested \<^verbatim>\<open>validate\<close> calls allowed:
  \<open>None\<close> says that the call did not return within that depth. \<open>index_loop\<close> is the loop
  \<^verbatim>\<open>for sitemap in sitemap_tags\<close>.

  \<open>validation_failed\<close> is the clause \<^verbatim>\<open>except Exception\<close> of \<^verbatim>\<open>validate\<close>: it catches every
  exception raised in the body, with the object as the exception left it.
\<close>

definition validation_failed :: "validator \<Rightarrow> exn \<Rightarrow> validator" where
  "validation_failed self e = append_error self (''Validation failed: '' @ message e)"

function validate :: "nat \<Rightarrow> env \<Rightarrow> validator \<Rightarrow> (validator \<times> request list) option"
  and parse_sitemap :: "nat \<Rightarrow> env \<Rightarrow> validator \<Rightarrow> string \<Rightarrow> ((exn + url_data list) \<times> validator \<times> request list) option"
  and index_loop :: "nat \<Rightarrow> env \<Rightarrow> validator \<Rightarrow> element list \<Rightarrow> (validator \<times> request list) option"
where
  "validate 0 env self = None"
| "validate (Suc depth) env self =
     (let rq = requests_get (sitemap_url self) (user_agent self) (timeout self) in
      case send env rq of
        Inl e \<Rightarrow> Some (validation_failed self e, [rq])
      | Inr response \<Rightarrow>
          if status_code response \<noteq> 200
          then Some (append_error self
                       (''Failed to fetch sitemap (HTTP '' @ str_int (status_code response) @ '')''),
                     [rq])
          else
            let content_type = (case content_type_header response of None \<Rightarrow> [] | Some v \<Rightarrow> v);
                self1 = (if \<not> contains ''xml'' (lower content_type)
                         then append_error self
                                (''Sitemap is not XML (Content-Type: '' @ content_type @ '')'')
                         else self)
            in (case parse_sitemap depth env self1 (content response) of
                  None \<Rightarrow> None
                | Some (Inl e, self2, tr) \<Rightarrow> Some (validation_failed self2 e, rq # tr)
                | Some (Inr urls, self2, tr) \<Rightarrow>
                    (let self3 = self2\<lparr>results := (results self2)\<lparr>total_urls := int (length urls)\<rparr>\<rparr>
                     in (case validate_urls env self3 urls of
                           (Some e, self4, tr') \<Rightarrow> Some (validation_failed self4 e, rq # tr @ tr')
                         | (None, self4, tr') \<Rightarrow> Some (self4, rq # tr @ tr')))))"
| "parse_sitemap depth env self content' =
     (case fromstring env content' of
        Inl e \<Rightarrow> Some (Inl e, self, [])
      | Inr root \<Rightarrow>
          let sitemap_tags = findall root ''sitemap'' in
          if sitemap_tags \<noteq> []
          then (case index_loop depth env self sitemap_tags of
                  None \<Rightarrow> None
                | Some (self', tr) \<Rightarrow> Some (Inr [], self', tr))
          else Some (Inr (url_entries (findall root ''url'')), self, []))"
| "index_loop depth env self [] = Some (self, [])"
| "index_loop depth env self (sitemap # sitemap_tags) =
     (if has_loc_text sitemap
      then (case validate depth env (child_validator self (loc_text sitemap)) of
              None \<Rightarrow> None
            | Some (child, tr) \<Rightarrow>
                (case index_loop depth env (merge_results self (results child)) sitemap_tags of
                   None \<Rightarrow> None
                 | Some (self', tr') \<Rightarrow> Some (self', tr @ tr')))
      else index_loop depth env self sitemap_tags)"
  by pat_completeness auto
termination
  by (relation "measures
        [\<lambda>x. case x of Inl (d, _) \<Rightarrow> d | Inr (Inl (d, _)) \<Rightarrow> d | Inr (Inr (d, _)) \<Rightarrow> d,
         \<lambda>x. case x of Inl _ \<Rightarrow> 0 | Inr (Inl _) \<Rightarrow> 2 | Inr (Inr _) \<Rightarrow> 1,
         \<lambda>x. case x of Inl _ \<Rightarrow> 0 | Inr (Inl _) \<Rightarrow> 0 | Inr (Inr (_, _, _, ts)) \<Rightarrow> length ts]")
     auto

subsection \<open>Notions the properties are stated with\<close>

definition trimmed :: "string \<Rightarrow> bool" where
  \<comment> \<open>no white space at either end\<close>
  "trimmed s = (s = [] \<or> (\<not> isspace (hd s) \<and> \<not> isspace (last s)))"

definition trimmed_opt :: "string option \<Rightarrow> bool" where
  "trimmed_opt t = (case t of None \<Rightarrow> True | Some s \<Rightarrow> trimmed s)"

definition loc_children :: "element \<Rightarrow> element list" where
  \<comment> \<open>all the \<^verbatim>\<open><loc>\<close> children of an element\<close>
  "loc_children element = filter (\<lambda>c. elem_tag c = sm ''loc'') (elem_children element)"

definition url_loc_elements :: "element \<Rightarrow> element list" where
  \<comment> \<open>the \<^verbatim>\<open><url><loc>\<close> elements of a document, in document order\<close>
  "url_loc_elements root = concat (map loc_children (findall root ''url''))"

definition index_children :: "validator \<Rightarrow> element list \<Rightarrow> validator list" where
  \<comment> \<open>the child validators \<open>index_loop\<close> constructs for a list of \<^verbatim>\<open><sitemap>\<close> elements\<close>
  "index_children self sitemap_tags =
     map (\<lambda>sitemap. child_validator self (loc_text sitemap)) (filter has_loc_text sitemap_tags)"

definition child_sitemaps :: "env \<Rightarrow> validator \<Rightarrow> validator list" where
  \<comment> \<open>the child validators of the document a validator fetches; none unless the fetch
      answers 200 with a body that parses to a sitemap index\<close>
  "child_sitemaps env self =
     (case send env (requests_get (sitemap_url self) (user_agent self) (timeout self)) of
        Inl e \<Rightarrow> []
      | Inr response \<Rightarrow>
          if status_code response \<noteq> 200 then []
          else (case fromstring env (content response) of
                  Inl e \<Rightarrow> []
                | Inr root \<Rightarrow> index_children self (findall root ''sitemap'')))"

fun depth_within :: "nat \<Rightarrow> env \<Rightarrow> validator \<Rightarrow> bool" where
  \<comment> \<open>the tree of sitemap documents below a validator has fewer than \<open>depth + 1\<close> levels\<close>
  "depth_within 0 env self = False"
| "depth_within (Suc depth) env self = list_all (depth_within depth env) (child_sitemaps env self)"

definition recorded_invalid :: "validator \<Rightarrow> url_data \<Rightarrow> string \<Rightarrow> validator" where
  \<comment> \<open>the object once an entry has been resolved as invalid: its outcome appended with
      \<^verbatim>\<open>is_valid\<close> false, \<open>invalid_urls\<close> one higher, and the one error string appended\<close>
  "recorded_invalid self ud msg =
     self\<lparr>results := (results self)\<lparr>invalid_urls := invalid_urls (results self) + 1,
                                       errors := errors (results self) @ [msg]\<rparr>,
          all_processed_urls := all_processed_urls self @
            [\<lparr>loc = loc ud, lastmod = lastmod ud, changefreq = changefreq ud,
              priority = priority ud, is_valid = False\<rparr>]\<rparr>"

subsection \<open>A small world to run the definitions in\<close>

text \<open>
  One site. The index \<^verbatim>\<open>sitemap.xml\<close> lists the urlsets \<^verbatim>\<open>a.xml\<close> and \<^verbatim>\<open>b.xml\<close>, each with
  one page that answers 200 and one that times out. \<^verbatim>\<open>pages.xml\<close> is a urlset with
  padded text, an empty \<^verbatim>\<open><loc>\<close> and a \<^verbatim>\<open><url>\<close> without \<^verbatim>\<open><loc>\<close>. \<^verbatim>\<open>bracket.xml\<close> is a
  urlset whose one location is \<^verbatim>\<open>http://[::1\<close>, on which \<^verbatim>\<open>urlparse\<close> raises \<^verbatim>\<open>ValueError\<close>.
  \<^verbatim>\<open>head-rejected\<close> answers 404 to HEAD and 200 to GET; \<^verbatim>\<open>drops-get\<close> answers 405 to HEAD
  and times out on GET; \<^verbatim>\<open>error\<close> answers 500. \<^verbatim>\<open>page.html\<close> and \<^verbatim>\<open>cut.xml\<close> answer 200
  with a body that is not XML, the first as \<^verbatim>\<open>text/html\<close>. \<^verbatim>\<open>gone.xml\<close> answers 404.
  \<^verbatim>\<open>loop.xml\<close> is an index that lists itself. Every other request times out. The parser
  and the URL parser are tables with the answers the libraries give on these inputs.
\<close>

definition loc_element :: "string \<Rightarrow> element" where
  "loc_element t = Element (sm ''loc'') (Some t) []"

definition demo_index :: element where
  "demo_index =
     Element (sm ''sitemapindex'') None
       [Element (sm ''sitemap'') None [loc_element ''https://example.com/a.xml''],
        Element (sm ''sitemap'') None [loc_element ''https://example.com/b.xml'']]"

definition demo_urlset_a :: element where
  "demo_urlset_a =
     Element (sm ''urlset'') None
       [Element (sm ''url'') None [loc_element ''https://example.com/a1''],
        Element (sm ''url'') None [loc_element ''https://example.com/a2'']]"

definition demo_urlset_b :: element where
  "demo_urlset_b =
     Element (sm ''urlset'') None
       [Element (sm ''url'') None [loc_element ''https://example.com/b1''],
        Element (sm ''url'') None [loc_element ''https://example.com/b2'']]"

definition demo_pages :: element where
  "demo_pages =
     Element (sm ''urlset'') None
       [Element (sm ''url'') None
          [loc_element ''  https://example.com/a1 '',
           Element (sm ''lastmod'') (Some '' 2024-01-01 '') [],
           Element (sm ''priority'') (Some ''   '') []],
        Element (sm ''url'') None [Element (sm ''loc'') None []],
        Element (sm ''url'') None [Element (sm ''lastmod'') (Some ''2024-01-02'') []]]"

definition demo_bracket :: element where
  "demo_bracket =
     Element (sm ''urlset'') None [Element (sm ''url'') None [loc_element ''http://[::1'']]"

definition demo_loop :: element where
  "demo_loop =
     Element (sm ''sitemapindex'') None
       [Element (sm ''sitemap'') None [loc_element ''https://example.com/loop.xml'']]"

definition ok_response :: "string \<Rightarrow> string \<Rightarrow> response" where
  "ok_response ctype body = \<lparr>status_code = 200, content_type_header = Some ctype, content = body\<rparr>"

definition not_found :: response where
  "not_found = \<lparr>status_code = 404, content_type_header = Some ''text/html'', content = []\<rparr>"

definition server_error :: response where
  "server_error = \<lparr>status_code = 500, content_type_header = Some ''text/html'', content = []\<rparr>"

definition method_not_allowed :: response where
  "method_not_allowed = \<lparr>status_code = 405, content_type_header = Some ''text/html'', content = []\<rparr>"

definition demo_send :: "request \<Rightarrow> exn + response" where
  "demo_send rq =
     (let u = req_url rq in
      if u = ''https://example.com/sitemap.xml'' then Inr (ok_response ''application/xml'' ''INDEX'')
      else if u = ''https://example.com/a.xml'' then Inr (ok_response ''application/xml'' ''URLSET A'')
      else if u = ''https://example.com/b.xml'' then Inr (ok_response ''text/xml'' ''URLSET B'')
      else if u = ''https://example.com/pages.xml'' then Inr (ok_response ''application/xml'' ''PAGES'')
      else if u = ''https://example.com/loop.xml'' then Inr (ok_response ''application/xml'' ''LOOP'')
      else if u = ''https://example.com/bracket.xml'' then Inr (ok_response ''application/xml'' ''BRACKET'')
      else if u = ''https://example.com/page.html'' then Inr (ok_response ''text/html'' ''<html>'')
      else if u = ''https://example.com/cut.xml'' then Inr (ok_response ''application/xml'' ''<urlset>'')
      else if u = ''https://example.com/gone.xml'' then Inr not_found
      else if u = ''https://example.com/a1'' \<or> u = ''https://example.com/b1''
      then Inr (ok_response ''text/html'' [])
      else if u = ''https://example.com/head-rejected''
      then (if meth rq = HEAD then Inr not_found else Inr (ok_response ''text/html'' []))
      else if u = ''https://example.com/drops-get''
      then (if meth rq = HEAD then Inr method_not_allowed else Inl (Exn RequestException ''timed out''))
      else if u = ''https://example.com/error'' then Inr server_error
      else Inl (Exn RequestException ''timed out''))"

definition demo_fromstring :: "string \<Rightarrow> exn + element" where
  "demo_fromstring body =
     (if body = ''INDEX'' then Inr demo_index
      else if body = ''URLSET A'' then Inr demo_urlset_a
      else if body = ''URLSET B'' then Inr demo_urlset_b
      else if body = ''PAGES'' then Inr demo_pages
      else if body = ''LOOP'' then Inr demo_loop
      else if body = ''BRACKET'' then Inr demo_bracket
      else if body = ''<html>'' then Inl (Exn ParseError ''no element found: line 1, column 6'')
      else Inl (Exn ParseError ''no element found: line 1, column 8''))"

definition demo_urlparse :: "string \<Rightarrow> exn + string \<times> string" where
  "demo_urlparse u =
     (if startswith u ''https://example.com/'' then Inr (''https'', ''example.com'')
      else if startswith u ''http://['' then Inl (Exn ValueError ''Invalid IPv6 URL'')
      else Inr ([], []))"

definition demo_env :: env where
  "demo_env = \<lparr>send = demo_send, fromstring = demo_fromstring, urlparse = demo_urlparse\<rparr>"

definition demo_child :: "string \<Rightarrow> string \<Rightarrow> string \<Rightarrow> validator \<times> request list" where
  \<comment> \<open>what \<^verbatim>\<open>validate\<close> makes of a child validator for \<^verbatim>\<open>a.xml\<close> or \<^verbatim>\<open>b.xml\<close>, and the
      requests it sends: the urlset, then its two pages\<close>
  "demo_child sitemap page1 page2 =
     (\<lparr>sitemap_url = sitemap, timeout = 10, max_workers = 5, user_agent = ''SitemapValidator/1.0'',
       results = \<lparr>valid_urls = 1, invalid_urls = 1, total_urls = 2,
                  errors = [''Failed to connect to '' @ page2 @ '': timed out'']\<rparr>,
       all_processed_urls =
         [\<lparr>loc = page1, lastmod = None, changefreq = None, priority = None, is_valid = True\<rparr>,
          \<lparr>loc = page2, lastmod = None, changefreq = None, priority = None, is_valid = False\<rparr>]\<rparr>,
      [requests_get sitemap ''SitemapValidator/1.0'' 10,
       requests_head page1 ''SitemapValidator/1.0'' 10,
       requests_head page2 ''SitemapValidator/1.0'' 10])"

definition demo_children :: "(validator \<times> request list) list" where
  "demo_children =
     [demo_child ''https://example.com/a.xml'' ''https://example.com/a1'' ''https://example.com/a2'',
      demo_child ''https://example.com/b.xml'' ''https://example.com/b1'' ''https://example.com/b2'']"

definition entry :: "string \<Rightarrow> url_data" where
  "entry l = \<lparr>loc = l, lastmod = None, changefreq = None, priority = None\<rparr>"

definition demo_validator :: "string \<Rightarrow> validator" where
  "demo_validator url = init url 10 5 ''ExampleBot/2.0''"

section \<open>Properties\<close>

lemmas updates = append_error_def count_valid_def count_invalid_def processed_def

lemma demo_urlparse_site:
  "urlparse demo_env (''https://example.com/'' @ p) = Inr (''https'', ''example.com'')"
  by (simp add: demo_env_def demo_urlparse_def)

lemma demo_head_rejected:
  "send demo_env (requests_head ''https://example.com/head-rejected'' ua t) = Inr not_found"
  "send demo_env (requests_get ''https://example.com/head-rejected'' ua t) =
     Inr (ok_response ''text/html'' [])"
  by (simp_all add: demo_env_def demo_send_def requests_head_def requests_get_def)

subsection \<open>The check of one leaf URL\<close>

text \<open>
  Claim C4. When the location has a scheme and a host and the HEAD response has status
  403, 404 or 405, \<^verbatim>\<open>_check_url\<close> sends the HEAD request and then a GET request, and
  classifies by the status of the GET response: inside \<open>[200, 300)\<close> the entry is recorded
  as valid and \<open>valid_urls\<close> grows by one; outside, the entry is recorded as invalid,
  \<open>invalid_urls\<close> grows by one and the error \<^verbatim>\<open>URL returned HTTP <status>: <url>\<close> is
  appended.
\<close>

theorem C4_head_falls_back_to_get:
  assumes "urlparse env (loc ud) = Inr (scheme, netloc)" and "scheme \<noteq> []" and "netloc \<noteq> []"
    and "send env (requests_head (loc ud) (user_agent self) (timeout self)) = Inr head_response"
    and "status_code head_response \<in> {403, 404, 405}"
    and "send env (requests_get (loc ud) (user_agent self) (timeout self)) = Inr get_response"
  shows "\<exists>self'.
           check_url env self ud =
             (None, self', [requests_head (loc ud) (user_agent self) (timeout self),
                            requests_get (loc ud) (user_agent self) (timeout self)])
         \<and> all_processed_urls self' =
             all_processed_urls self @
               [\<lparr>loc = loc ud, lastmod = lastmod ud, changefreq = changefreq ud, priority = priority ud,
                 is_valid = (200 \<le> status_code get_response \<and> status_code get_response < 300)\<rparr>]
         \<and> results self' =
             (if 200 \<le> status_code get_response \<and> status_code get_response < 300
              then (results self)\<lparr>valid_urls := valid_urls (results self) + 1\<rparr>
              else (results self)
                     \<lparr>invalid_urls := invalid_urls (results self) + 1,
                      errors := errors (results self) @
                        [''URL returned HTTP '' @ str_int (status_code get_response) @ '': '' @ loc ud]\<rparr>)"
  using assms by (auto simp: check_url_def classify_def Let_def updates)

text \<open>
  The instance of the specification: 404 on HEAD and 200 on GET is classified valid.
\<close>

theorem C4_witness:
  "\<exists>self'. check_url demo_env (demo_validator ''https://example.com/pages.xml'')
              (entry ''https://example.com/head-rejected'') =
       (None, self', [requests_head ''https://example.com/head-rejected'' ''ExampleBot/2.0'' 10,
                      requests_get ''https://example.com/head-rejected'' ''ExampleBot/2.0'' 10])
     \<and> map is_valid (all_processed_urls self') = [True]
     \<and> valid_urls (results self') = 1 \<and> invalid_urls (results self') = 0 \<and> errors (results self') = []"
proof -
  let ?v = "demo_validator ''https://example.com/pages.xml''"
  let ?u = "entry ''https://example.com/head-rejected''"
  have p: "urlparse demo_env (loc ?u) = Inr (''https'', ''example.com'')"
    using demo_urlparse_site [of "''head-rejected''"] by (simp add: entry_def)
  have h: "send demo_env (requests_head (loc ?u) (user_agent ?v) (timeout ?v)) = Inr not_found"
    by (simp add: entry_def demo_head_rejected)
  have g: "send demo_env (requests_get (loc ?u) (user_agent ?v) (timeout ?v)) =
             Inr (ok_response ''text/html'' [])"
    by (simp add: entry_def demo_head_rejected)
  have s: "status_code not_found \<in> {403, 404, 405}" by (simp add: not_found_def)
  from C4_head_falls_back_to_get [OF p _ _ h s g]
  show ?thesis by (auto simp: entry_def demo_validator_def init_def ok_response_def)
qed

text \<open>
  Claim C5 fails on the code, and the code is at fault. A location with an empty scheme
  or host is classified invalid with the error \<^verbatim>\<open>Invalid URL structure: <url>\<close> and no
  request is sent. A location on which the URL parser itself raises does not parse as an
  absolute URL either, but the handler of \<^verbatim>\<open>_check_url\<close> does not catch what the parser
  raises: for \<^verbatim>\<open>http://[::1\<close> no request is sent, the exception leaves \<^verbatim>\<open>_check_url\<close>, and
  the run of \<^verbatim>\<open>validate\<close> on a urlset with that one location ends with one URL in total,
  none valid, none invalid, no recorded outcome, and the error \<^verbatim>\<open>Error during URL
  validation: Invalid IPv6 URL\<close>.
\<close>

theorem C5_parser_raises_uncounted:
  "check_url demo_env (demo_validator ''https://example.com/bracket.xml'') (entry ''http://[::1'') =
     (Some (Exn ValueError ''Invalid IPv6 URL''), demo_validator ''https://example.com/bracket.xml'', [])
   \<and> validate (Suc 0) demo_env (demo_validator ''https://example.com/bracket.xml'') =
       Some (\<lparr>sitemap_url = ''https://example.com/bracket.xml'', timeout = 10, max_workers = 5,
              user_agent = ''ExampleBot/2.0'',
              results = \<lparr>valid_urls = 0, invalid_urls = 0, total_urls = 1,
                         errors = [''Error during URL validation: Invalid IPv6 URL'']\<rparr>,
              all_processed_urls = []\<rparr>,
             [requests_get ''https://example.com/bracket.xml'' ''ExampleBot/2.0'' 10])"
  by code_simp

text \<open>
  Claim C6, as stated, fails: \<^verbatim>\<open>_check_url\<close> catches \<^verbatim>\<open>RequestException\<close> only. On a
  location for which the URL parser raises \<^verbatim>\<open>ValueError\<close> the exception leaves
  \<^verbatim>\<open>_check_url\<close>; \<^verbatim>\<open>_validate_urls\<close> catches it and appends an error string.
\<close>

theorem C6_counterexample:
  "check_url demo_env (demo_validator ''https://example.com/pages.xml'') (entry ''http://[::1'') =
     (Some (Exn ValueError ''Invalid IPv6 URL''), demo_validator ''https://example.com/pages.xml'', [])
   \<and> validate_urls demo_env (demo_validator ''https://example.com/pages.xml'') [entry ''http://[::1''] =
     (None,
      append_error (demo_validator ''https://example.com/pages.xml'')
        ''Error during URL validation: Invalid IPv6 URL'',
      [])"
  by (simp add: check_url_def validate_urls_def except_request_def entry_def demo_env_def
      demo_urlparse_def demo_validator_def init_def)

text \<open>
  Claim C6, amended. \<^verbatim>\<open>_check_url\<close> lets no \<^verbatim>\<open>RequestException\<close> escape. Each failure it
  handles resolves into the outcome of the entry recorded with \<^verbatim>\<open>is_valid\<close> false,
  \<open>invalid_urls\<close> one higher and exactly one error string appended: an empty scheme or
  host (\<^verbatim>\<open>Invalid URL structure: <url>\<close>, no request sent); a status outside \<open>[200, 300)\<close>
  of the HEAD response, or of the GET response after a HEAD status of 403, 404 or 405
  (\<^verbatim>\<open>URL returned HTTP <status>: <url>\<close>); a \<^verbatim>\<open>RequestException\<close> of the HEAD request or of
  that GET request (\<^verbatim>\<open>Failed to connect to <url>: <cause>\<close>). An exception that does leave
  \<^verbatim>\<open>_check_url\<close> is of another class, and \<^verbatim>\<open>_validate_urls\<close> appends
  \<^verbatim>\<open>Error during URL validation: <cause>\<close> for it.
\<close>

theorem C6_check_url_outcomes:
  "(\<forall>e self' tr.
      check_url env self ud = (Some e, self', tr) \<longrightarrow>
        exn_class e \<noteq> RequestException
      \<and> errors (results (fst (run_workers env self [ud]))) =
          errors (results self) @ [''Error during URL validation: '' @ message e])
   \<and> (\<forall>scheme netloc.
        urlparse env (loc ud) = Inr (scheme, netloc) \<and> (scheme = [] \<or> netloc = []) \<longrightarrow>
        check_url env self ud =
          (None, recorded_invalid self ud (''Invalid URL structure: '' @ loc ud), []))
   \<and> (\<forall>scheme netloc.
        urlparse env (loc ud) = Inr (scheme, netloc) \<and> scheme \<noteq> [] \<and> netloc \<noteq> [] \<longrightarrow>
        (\<forall>e. send env (requests_head (loc ud) (user_agent self) (timeout self)) = Inl e
             \<and> exn_class e = RequestException \<longrightarrow>
             check_url env self ud =
               (None,
                recorded_invalid self ud (''Failed to connect to '' @ loc ud @ '': '' @ message e),
                [requests_head (loc ud) (user_agent self) (timeout self)]))
      \<and> (\<forall>r. send env (requests_head (loc ud) (user_agent self) (timeout self)) = Inr r
             \<and> status_code r \<notin> {403, 404, 405}
             \<and> \<not> (200 \<le> status_code r \<and> status_code r < 300) \<longrightarrow>
             check_url env self ud =
               (None,
                recorded_invalid self ud
                  (''URL returned HTTP '' @ str_int (status_code r) @ '': '' @ loc ud),
                [requests_head (loc ud) (user_agent self) (timeout self)]))
      \<and> (\<forall>r e. send env (requests_head (loc ud) (user_agent self) (timeout self)) = Inr r
               \<and> status_code r \<in> {403, 404, 405}
               \<and> send env (requests_get (loc ud) (user_agent self) (timeout self)) = Inl e
               \<and> exn_class e = RequestException \<longrightarrow>
               check_url env self ud =
                 (None,
                  recorded_invalid self ud (''Failed to connect to '' @ loc ud @ '': '' @ message e),
                  [requests_head (loc ud) (user_agent self) (timeout self),
                   requests_get (loc ud) (user_agent self) (timeout self)]))
      \<and> (\<forall>r r'. send env (requests_head (loc ud) (user_agent self) (timeout self)) = Inr r
                \<and> status_code r \<in> {403, 404, 405}
                \<and> send env (requests_get (loc ud) (user_agent self) (timeout self)) = Inr r'
                \<and> \<not> (200 \<le> status_code r' \<and> status_code r' < 300) \<longrightarrow>
                check_url env self ud =
                  (None,
                   recorded_invalid self ud
                     (''URL returned HTTP '' @ str_int (status_code r') @ '': '' @ loc ud),
                   [requests_head (loc ud) (user_agent self) (timeout self),
                    requests_get (loc ud) (user_agent self) (timeout self)])))"
proof (intro conjI allI impI)
  fix e self' tr
  assume raised: "check_url env self ud = (Some e, self', tr)"
  then show "exn_class e \<noteq> RequestException"
    by (auto simp: check_url_def classify_def except_request_def Let_def
             split: sum.splits prod.splits if_splits)
  from raised have "self' = self"
    by (auto simp: check_url_def classify_def except_request_def Let_def
             split: sum.splits prod.splits if_splits)
  with raised
  show "errors (results (fst (run_workers env self [ud]))) =
          errors (results self) @ [''Error during URL validation: '' @ message e]"
    by (simp add: append_error_def)
qed (auto simp: check_url_def classify_def except_request_def Let_def updates recorded_invalid_def)

lemma str_int_codes: "str_int 404 = ''404''" "str_int 500 = ''500''"
  by code_simp+

lemma demo_leaf_answers:
  "send demo_env (requests_head ''https://example.com/a2'' ua t) = Inl (Exn RequestException ''timed out'')"
  "send demo_env (requests_head ''https://example.com/error'' ua t) = Inr server_error"
  "send demo_env (requests_head ''https://example.com/drops-get'' ua t) = Inr method_not_allowed"
  "send demo_env (requests_get ''https://example.com/drops-get'' ua t) =
     Inl (Exn RequestException ''timed out'')"
  "send demo_env (requests_head ''https://example.com/gone.xml'' ua t) = Inr not_found"
  "send demo_env (requests_get ''https://example.com/gone.xml'' ua t) = Inr not_found"
  by (simp_all add: demo_env_def demo_send_def requests_head_def requests_get_def)

theorem C6_witness:
  "errors (results (fst (run_workers demo_env (demo_validator ''https://example.com/bracket.xml'')
                           [entry ''http://[::1'']))) =
     [''Error during URL validation: Invalid IPv6 URL'']
   \<and> check_url demo_env (demo_validator ''https://example.com/pages.xml'') (entry ''not-a-url'') =
       (None,
        recorded_invalid (demo_validator ''https://example.com/pages.xml'') (entry ''not-a-url'')
          ''Invalid URL structure: not-a-url'',
        [])
   \<and> check_url demo_env (demo_validator ''https://example.com/a.xml'') (entry ''https://example.com/a2'') =
       (None,
        recorded_invalid (demo_validator ''https://example.com/a.xml'') (entry ''https://example.com/a2'')
          ''Failed to connect to https://example.com/a2: timed out'',
        [requests_head ''https://example.com/a2'' ''ExampleBot/2.0'' 10])
   \<and> check_url demo_env (demo_validator ''https://example.com/pages.xml'') (entry ''https://example.com/error'') =
       (None,
        recorded_invalid (demo_validator ''https://example.com/pages.xml'') (entry ''https://example.com/error'')
          ''URL returned HTTP 500: https://example.com/error'',
        [requests_head ''https://example.com/error'' ''ExampleBot/2.0'' 10])
   \<and> check_url demo_env (demo_validator ''https://example.com/pages.xml'')
         (entry ''https://example.com/drops-get'') =
       (None,
        recorded_invalid (demo_validator ''https://example.com/pages.xml'')
          (entry ''https://example.com/drops-get'')
          ''Failed to connect to https://example.com/drops-get: timed out'',
        [requests_head ''https://example.com/drops-get'' ''ExampleBot/2.0'' 10,
         requests_get ''https://example.com/drops-get'' ''ExampleBot/2.0'' 10])
   \<and> check_url demo_env (demo_validator ''https://example.com/pages.xml'')
         (entry ''https://example.com/gone.xml'') =
       (None,
        recorded_invalid (demo_validator ''https://example.com/pages.xml'')
          (entry ''https://example.com/gone.xml'')
          ''URL returned HTTP 404: https://example.com/gone.xml'',
        [requests_head ''https://example.com/gone.xml'' ''ExampleBot/2.0'' 10,
         requests_get ''https://example.com/gone.xml'' ''ExampleBot/2.0'' 10])"
proof -
  let ?b = "demo_validator ''https://example.com/bracket.xml''"
  let ?p = "demo_validator ''https://example.com/pages.xml''"
  let ?a = "demo_validator ''https://example.com/a.xml''"
  have cfg: "user_agent (demo_validator u) = ''ExampleBot/2.0''" "timeout (demo_validator u) = 10"
    "errors (results (demo_validator u)) = []" for u
    by (simp_all add: demo_validator_def init_def)
  have raised: "check_url demo_env ?b (entry ''http://[::1'') =
                  (Some (Exn ValueError ''Invalid IPv6 URL''), ?b, [])"
    by (simp add: check_url_def except_request_def entry_def demo_env_def demo_urlparse_def)
  have none: "urlparse demo_env (loc (entry ''not-a-url'')) = Inr ([], []) \<and> ([] = [] \<or> [] = ([]::string))"
    by (simp add: entry_def demo_env_def demo_urlparse_def)
  have site:
    "urlparse demo_env (loc (entry ''https://example.com/a2'')) =
       Inr (''https'', ''example.com'') \<and> ''https'' \<noteq> [] \<and> ''example.com'' \<noteq> []"
    "urlparse demo_env (loc (entry ''https://example.com/error'')) =
       Inr (''https'', ''example.com'') \<and> ''https'' \<noteq> [] \<and> ''example.com'' \<noteq> []"
    "urlparse demo_env (loc (entry ''https://example.com/drops-get'')) =
       Inr (''https'', ''example.com'') \<and> ''https'' \<noteq> [] \<and> ''example.com'' \<noteq> []"
    "urlparse demo_env (loc (entry ''https://example.com/gone.xml'')) =
       Inr (''https'', ''example.com'') \<and> ''https'' \<noteq> [] \<and> ''example.com'' \<noteq> []"
    by (simp_all add: entry_def demo_env_def demo_urlparse_def)
  from C6_check_url_outcomes
         [where env = demo_env and self = ?b and ud = "entry ''http://[::1''",
          THEN conjunct1, rule_format, OF raised, THEN conjunct2]
  have w1: "errors (results (fst (run_workers demo_env ?b [entry ''http://[::1'']))) =
              [''Error during URL validation: Invalid IPv6 URL'']"
    by (simp add: cfg)
  from C6_check_url_outcomes
         [where env = demo_env and self = ?p and ud = "entry ''not-a-url''",
          THEN conjunct2, THEN conjunct1, rule_format, OF none]
  have w2: "check_url demo_env ?p (entry ''not-a-url'') =
              (None, recorded_invalid ?p (entry ''not-a-url'') ''Invalid URL structure: not-a-url'', [])"
    by (simp add: entry_def)
  note leaf = C6_check_url_outcomes [THEN conjunct2, THEN conjunct2, rule_format]
  from leaf [where env = demo_env and self = ?a and ud = "entry ''https://example.com/a2''",
             OF site(1), THEN conjunct1, rule_format,
             of "Exn RequestException ''timed out''"]
  have w3: "check_url demo_env ?a (entry ''https://example.com/a2'') =
       (None,
        recorded_invalid ?a (entry ''https://example.com/a2'')
          ''Failed to connect to https://example.com/a2: timed out'',
        [requests_head ''https://example.com/a2'' ''ExampleBot/2.0'' 10])"
    by (simp add: entry_def cfg demo_leaf_answers)
  from leaf [where env = demo_env and self = ?p and ud = "entry ''https://example.com/error''",
             OF site(2), THEN conjunct2, THEN conjunct1, rule_format,
             of server_error]
  have w4: "check_url demo_env ?p (entry ''https://example.com/error'') =
       (None,
        recorded_invalid ?p (entry ''https://example.com/error'')
          ''URL returned HTTP 500: https://example.com/error'',
        [requests_head ''https://example.com/error'' ''ExampleBot/2.0'' 10])"
    by (simp add: entry_def cfg demo_leaf_answers server_error_def str_int_codes)
  from leaf [where env = demo_env and self = ?p and ud = "entry ''https://example.com/drops-get''",
             OF site(3), THEN conjunct2, THEN conjunct2, THEN conjunct1,
             rule_format, of method_not_allowed "Exn RequestException ''timed out''"]
  have w5: "check_url demo_env ?p (entry ''https://example.com/drops-get'') =
       (None,
        recorded_invalid ?p (entry ''https://example.com/drops-get'')
          ''Failed to connect to https://example.com/drops-get: timed out'',
        [requests_head ''https://example.com/drops-get'' ''ExampleBot/2.0'' 10,
         requests_get ''https://example.com/drops-get'' ''ExampleBot/2.0'' 10])"
    by (simp add: entry_def cfg demo_leaf_answers method_not_allowed_def)
  from leaf [where env = demo_env and self = ?p and ud = "entry ''https://example.com/gone.xml''",
             OF site(4), THEN conjunct2, THEN conjunct2, THEN conjunct2,
             rule_format, of not_found not_found]
  have w6: "check_url demo_env ?p (entry ''https://example.com/gone.xml'') =
       (None,
        recorded_invalid ?p (entry ''https://example.com/gone.xml'')
          ''URL returned HTTP 404: https://example.com/gone.xml'',
        [requests_head ''https://example.com/gone.xml'' ''ExampleBot/2.0'' 10,
         requests_get ''https://example.com/gone.xml'' ''ExampleBot/2.0'' 10])"
    by (simp add: entry_def cfg demo_leaf_answers not_found_def str_int_codes)
  from w1 w2 w3 w4 w5 w6 show ?thesis by (intro conjI)
qed

subsection \<open>Entries of a parsed document\<close>

lemma last_dropWhile_nonempty: "dropWhile P xs \<noteq> [] \<Longrightarrow> last (dropWhile P xs) = last xs"
  by (induction xs) (auto split: if_splits)

lemma strip_trimmed: "trimmed (strip s)"
proof (cases "strip s = []")
  case True
  then show ?thesis by (simp add: trimmed_def)
next
  case False
  let ?t = "dropWhile isspace s"
  let ?u = "dropWhile isspace (rev ?t)"
  from False have u: "?u \<noteq> []" by (simp add: strip_def)
  then have "rev ?t \<noteq> []" by (metis dropWhile.simps(1))
  then have t: "?t \<noteq> []" by (simp only: rev_is_Nil_conv not_False_eq_True)
  have "last (strip s) = hd ?u" using u by (simp add: strip_def last_rev)
  moreover have "\<not> isspace (hd ?u)" using u by (rule hd_dropWhile)
  moreover have "hd (strip s) = last ?u" using u by (simp add: strip_def hd_rev)
  moreover have "last ?u = last (rev ?t)" using u by (rule last_dropWhile_nonempty)
  moreover have "last (rev ?t) = hd ?t" using t by (simp add: last_rev)
  moreover have "\<not> isspace (hd ?t)" using t by (rule hd_dropWhile)
  ultimately show ?thesis by (simp add: trimmed_def)
qed

lemma get_tag_text_trimmed: "trimmed_opt (get_tag_text element name)"
  by (simp add: get_tag_text_def trimmed_opt_def strip_trimmed split: option.splits)

lemma url_entries_trimmed:
  "u \<in> set (url_entries tags) \<Longrightarrow>
     trimmed (loc u) \<and> trimmed_opt (lastmod u) \<and> trimmed_opt (changefreq u) \<and> trimmed_opt (priority u)"
  by (induction tags) (auto simp: strip_trimmed get_tag_text_trimmed split: if_splits)

lemma url_entries_locs:
  "map loc (url_entries tags) = map (\<lambda>url. strip (loc_text url)) (filter has_loc_text tags)"
  by (induction tags) auto

lemma index_loop_skips:
  "index_loop depth env self tags = index_loop depth env self (filter has_loc_text tags)"
proof (induction tags arbitrary: self)
  case Nil
  show ?case by simp
next
  case (Cons t ts)
  show ?case
  proof (cases "has_loc_text t")
    case True
    then show ?thesis using Cons.IH by (simp split: option.splits)
  next
    case False
    then show ?thesis using Cons.IH by simp
  qed
qed

lemma has_loc_text_iff:
  "has_loc_text element \<longleftrightarrow>
     (\<exists>l s. find_child element ''loc'' = Some l \<and> elem_text l = Some s \<and> s \<noteq> [])"
  by (auto simp: has_loc_text_def truthy_def split: option.splits)

text \<open>
  Claim C9. Every entry \<^verbatim>\<open>_parse_sitemap\<close> returns has a location, and optional fields,
  without white space at either end. The locations of the entries are the stripped texts
  of exactly those \<^verbatim>\<open><url>\<close> elements whose first \<^verbatim>\<open><loc>\<close> child has a text that is neither
  missing nor empty, in document order; in an index, the loop over the \<^verbatim>\<open><sitemap>\<close>
  elements does the same as the loop over those of them that have such a \<^verbatim>\<open><loc>\<close>, so
  the others start no child validation.
\<close>

theorem C9_entries_skipped_and_trimmed:
  "(parse_sitemap depth env self body = Some (Inr urls, self', tr) \<longrightarrow>
      (\<forall>u \<in> set urls. trimmed (loc u) \<and> trimmed_opt (lastmod u)
                      \<and> trimmed_opt (changefreq u) \<and> trimmed_opt (priority u)))
   \<and> map loc (url_entries tags) = map (\<lambda>url. strip (loc_text url)) (filter has_loc_text tags)
   \<and> index_loop depth env self tags = index_loop depth env self (filter has_loc_text tags)
   \<and> (has_loc_text element \<longleftrightarrow>
        (\<exists>l s. find_child element ''loc'' = Some l \<and> elem_text l = Some s \<and> s \<noteq> []))"
proof -
  have "\<forall>u \<in> set urls. trimmed (loc u) \<and> trimmed_opt (lastmod u)
                      \<and> trimmed_opt (changefreq u) \<and> trimmed_opt (priority u)"
    if "parse_sitemap depth env self body = Some (Inr urls, self', tr)"
  proof (cases "fromstring env body")
    case (Inl e)
    with that show ?thesis by simp
  next
    case (Inr root)
    with that have "urls = [] \<or> urls = url_entries (findall root ''url'')"
      by (auto simp: Let_def split: if_splits option.splits)
    then show ?thesis using url_entries_trimmed by auto
  qed
  then show ?thesis
    using url_entries_locs index_loop_skips has_loc_text_iff by blast
qed

lemma demo_pages_parsed:
  "parse_sitemap 0 demo_env (demo_validator ''https://example.com/pages.xml'') ''PAGES'' =
     Some (Inr [\<lparr>loc = ''https://example.com/a1'', lastmod = Some ''2024-01-01'',
                 changefreq = None, priority = Some []\<rparr>],
           demo_validator ''https://example.com/pages.xml'', [])"
  by (simp add: demo_env_def demo_fromstring_def demo_pages_def loc_element_def findall_def
      find_child_def has_loc_text_def loc_text_def get_tag_text_def truthy_def sm_def strip_def
      isspace_def)

theorem C9_witness:
  "parse_sitemap 0 demo_env (demo_validator ''https://example.com/pages.xml'') ''PAGES'' =
     Some (Inr [\<lparr>loc = ''https://example.com/a1'', lastmod = Some ''2024-01-01'',
                 changefreq = None, priority = Some []\<rparr>],
           demo_validator ''https://example.com/pages.xml'', [])
   \<and> trimmed ''https://example.com/a1'' \<and> trimmed_opt (Some ''2024-01-01'')
   \<and> trimmed_opt None \<and> trimmed_opt (Some [])"
  using demo_pages_parsed
    C9_entries_skipped_and_trimmed [where depth = 0 and env = demo_env
      and self = "demo_validator ''https://example.com/pages.xml''" and body = "''PAGES''"
      and urls = "[\<lparr>loc = ''https://example.com/a1'', lastmod = Some ''2024-01-01'',
                 changefreq = None, priority = Some []\<rparr>]"
      and self' = "demo_validator ''https://example.com/pages.xml''" and tr = "[]"]
  by simp

subsection \<open>Failures while fetching or parsing the sitemap\<close>

declare validate.simps(2) [simp del] parse_sitemap.simps [simp del]

lemma validate_not_200:
  assumes "send env (requests_get (sitemap_url self) (user_agent self) (timeout self)) = Inr response"
    and "status_code response \<noteq> 200"
  shows "validate (Suc depth) env self =
           Some (append_error self
                   (''Failed to fetch sitemap (HTTP '' @ str_int (status_code response) @ '')''),
                 [requests_get (sitemap_url self) (user_agent self) (timeout self)])"
  using assms by (simp add: Let_def validate.simps(2) parse_sitemap.simps)

lemma validate_fetch_raises:
  assumes "send env (requests_get (sitemap_url self) (user_agent self) (timeout self)) = Inl e"
  shows "validate (Suc depth) env self =
           Some (validation_failed self e,
                 [requests_get (sitemap_url self) (user_agent self) (timeout self)])"
  using assms by (simp add: Let_def validate.simps(2) parse_sitemap.simps)

lemma validate_parse_raises:
  assumes "send env (requests_get (sitemap_url self) (user_agent self) (timeout self)) = Inr response"
    and "status_code response = 200"
    and "fromstring env (content response) = Inl e"
  shows "validate (Suc depth) env self =
           Some (validation_failed
                   (let content_type = (case content_type_header response of None \<Rightarrow> [] | Some v \<Rightarrow> v)
                    in if \<not> contains ''xml'' (lower content_type)
                       then append_error self
                              (''Sitemap is not XML (Content-Type: '' @ content_type @ '')'')
                       else self) e,
                 [requests_get (sitemap_url self) (user_agent self) (timeout self)])"
  using assms by (simp add: Let_def validate.simps(2) parse_sitemap.simps)

text \<open>
  Claim C7, as stated, fails on the number of error strings: the check of the
  \<^verbatim>\<open>Content-Type\<close> header comes before the parse and appends its own warning. A page
  served as \<^verbatim>\<open>text/html\<close> whose body is not XML gives two error strings.
\<close>

theorem C7_counterexample:
  "map_option (\<lambda>(self', tr). errors (results self'))
     (validate (Suc 0) demo_env (demo_validator ''https://example.com/page.html'')) =
   Some [''Sitemap is not XML (Content-Type: text/html)'',
         ''Validation failed: no element found: line 1, column 6'']"
  by code_simp

text \<open>
  Claim C7, amended. On a new validator, when the fetch answers 200 and the parser raises
  on the body, \<^verbatim>\<open>validate\<close> returns with all three counters at zero, having sent the one
  fetch. The errors are the warning \<^verbatim>\<open>Sitemap is not XML (Content-Type: ...)\<close> if the
  \<^verbatim>\<open>Content-Type\<close> header does not contain \<^verbatim>\<open>xml\<close>, followed by exactly one string
  \<^verbatim>\<open>Validation failed: <cause>\<close> with the parser's message.
\<close>

theorem C7_malformed_xml:
  assumes "send env (requests_get url ua t) = Inr response"
    and "status_code response = 200"
    and "fromstring env (content response) = Inl e"
  shows "\<exists>self'.
           validate (Suc depth) env (init url t w ua) = Some (self', [requests_get url ua t])
         \<and> results self' =
             \<lparr>valid_urls = 0, invalid_urls = 0, total_urls = 0,
              errors =
                (let content_type = (case content_type_header response of None \<Rightarrow> [] | Some v \<Rightarrow> v)
                 in if contains ''xml'' (lower content_type) then []
                    else [''Sitemap is not XML (Content-Type: '' @ content_type @ '')''])
                @ [''Validation failed: '' @ message e]\<rparr>"
proof -
  let ?self = "init url t w ua"
  have "send env (requests_get (sitemap_url ?self) (user_agent ?self) (timeout ?self)) = Inr response"
    using assms(1) by (simp add: init_def)
  from validate_parse_raises [OF this assms(2,3), of depth]
  show ?thesis by (simp add: init_def validation_failed_def append_error_def Let_def)
qed

lemma lower_application_xml: "contains ''xml'' (lower ''application/xml'')"
  by code_simp

theorem C7_witness:
  "\<exists>self'.
     validate (Suc 0) demo_env (init ''https://example.com/cut.xml'' 10 5 ''ExampleBot/2.0'') =
       Some (self', [requests_get ''https://example.com/cut.xml'' ''ExampleBot/2.0'' 10])
   \<and> results self' =
       \<lparr>valid_urls = 0, invalid_urls = 0, total_urls = 0,
        errors = [''Validation failed: no element found: line 1, column 8'']\<rparr>"
proof -
  have s: "send demo_env (requests_get ''https://example.com/cut.xml'' ''ExampleBot/2.0'' 10) =
             Inr (ok_response ''application/xml'' ''<urlset>'')"
    by (simp add: demo_env_def demo_send_def requests_get_def)
  have c: "status_code (ok_response ''application/xml'' ''<urlset>'') = 200"
    by (simp add: ok_response_def)
  have f: "fromstring demo_env (content (ok_response ''application/xml'' ''<urlset>'')) =
             Inl (Exn ParseError ''no element found: line 1, column 8'')"
    by (simp add: demo_env_def demo_fromstring_def ok_response_def)
  from C7_malformed_xml [OF s c f, of 0 5]
  show ?thesis by (simp add: ok_response_def lower_application_xml)
qed

subsection \<open>validate returns\<close>

lemma child_validator_same:
  "timeout s' = timeout s \<Longrightarrow> max_workers s' = max_workers s \<Longrightarrow>
     child_validator s' l = child_validator s l"
  by (simp add: child_validator_def)

lemma index_children_same:
  assumes "timeout s' = timeout s" and "max_workers s' = max_workers s"
  shows "index_children s' tags = index_children s tags"
  by (simp add: index_children_def child_validator_same [OF assms])

lemma merge_results_config [simp]:
  "timeout (merge_results self r) = timeout self"
  "max_workers (merge_results self r) = max_workers self"
  "user_agent (merge_results self r) = user_agent self"
  "sitemap_url (merge_results self r) = sitemap_url self"
  by (simp_all add: merge_results_def)

lemma append_error_config [simp]:
  "timeout (append_error self m) = timeout self"
  "max_workers (append_error self m) = max_workers self"
  "user_agent (append_error self m) = user_agent self"
  "sitemap_url (append_error self m) = sitemap_url self"
  by (simp_all add: append_error_def)

lemma index_children_append_error:
  "index_children (append_error self m) tags = index_children self tags"
  by (rule index_children_same) simp_all

lemma index_loop_returns:
  assumes "\<forall>c \<in> set (index_children self tags). \<exists>v tr. validate depth env c = Some (v, tr)"
  shows "\<exists>v tr. index_loop depth env self tags = Some (v, tr)"
  using assms
proof (induction tags arbitrary: self)
  case Nil
  show ?case by simp
next
  case (Cons t ts)
  show ?case
  proof (cases "has_loc_text t")
    case False
    with Cons.prems have "\<forall>c \<in> set (index_children self ts). \<exists>v tr. validate depth env c = Some (v, tr)"
      by (simp add: index_children_def)
    from Cons.IH [OF this] False show ?thesis by simp
  next
    case True
    with Cons.prems obtain child tr
      where child: "validate depth env (child_validator self (loc_text t)) = Some (child, tr)"
      by (auto simp: index_children_def)
    let ?self = "merge_results self (results child)"
    have "index_children ?self ts = index_children self ts"
      by (rule index_children_same) simp_all
    with Cons.prems True
    have "\<forall>c \<in> set (index_children ?self ts). \<exists>v tr. validate depth env c = Some (v, tr)"
      by (simp add: index_children_def)
    from Cons.IH [OF this] obtain v tr' where "index_loop depth env ?self ts = Some (v, tr')"
      by blast
    with True child show ?thesis by simp
  qed
qed

lemma parse_sitemap_returns:
  assumes "\<And>root. fromstring env body = Inr root \<Longrightarrow>
             \<forall>c \<in> set (index_children self (findall root ''sitemap'')).
               \<exists>v tr. validate depth env c = Some (v, tr)"
  shows "\<exists>x v tr. parse_sitemap depth env self body = Some (x, v, tr)"
proof (cases "fromstring env body")
  case (Inl e)
  then show ?thesis by (simp add: parse_sitemap.simps)
next
  case (Inr root)
  from index_loop_returns [OF assms [OF Inr]]
  obtain v tr where "index_loop depth env self (findall root ''sitemap'') = Some (v, tr)"
    by blast
  with Inr show ?thesis by (simp add: Let_def parse_sitemap.simps)
qed

lemma validate_after_parse:
  shows "\<exists>v' tr'.
           (case Some (x, v, tr) of
              None \<Rightarrow> None
            | Some (Inl e, self2, tr) \<Rightarrow> Some (validation_failed self2 e, rq # tr)
            | Some (Inr urls, self2, tr) \<Rightarrow>
                (let self3 = self2\<lparr>results := (results self2)\<lparr>total_urls := int (length urls)\<rparr>\<rparr>
                 in (case validate_urls env self3 urls of
                       (Some e, self4, tr') \<Rightarrow> Some (validation_failed self4 e, rq # tr @ tr')
                     | (None, self4, tr') \<Rightarrow> Some (self4, rq # tr @ tr')))) = Some (v', tr')"
proof (cases x)
  case (Inl e)
  then show ?thesis by simp
next
  case (Inr urls)
  show ?thesis unfolding Inr
    by (simp add: Let_def split: prod.split option.split)
qed

lemma validate_returns:
  "depth_within depth env self \<Longrightarrow> \<exists>v tr. validate depth env self = Some (v, tr)"
proof (induction depth arbitrary: self)
  case 0
  then show ?case by simp
next
  case (Suc depth)
  let ?rq = "requests_get (sitemap_url self) (user_agent self) (timeout self)"
  show ?case
  proof (cases "send env ?rq")
    case (Inl e)
    then show ?thesis by (simp add: validate_fetch_raises)
  next
    case (Inr response)
    show ?thesis
    proof (cases "status_code response = 200")
      case False
      with Inr show ?thesis by (simp add: validate_not_200)
    next
      case True
      let ?ct = "case content_type_header response of None \<Rightarrow> [] | Some v \<Rightarrow> v"
      let ?self1 = "if \<not> contains ''xml'' (lower ?ct)
                    then append_error self (''Sitemap is not XML (Content-Type: '' @ ?ct @ '')'')
                    else self"
      have children: "\<forall>c \<in> set (index_children ?self1 (findall root ''sitemap'')).
                        \<exists>v tr. validate depth env c = Some (v, tr)"
        if root: "fromstring env (content response) = Inr root" for root
      proof -
        have "index_children ?self1 (findall root ''sitemap'') = child_sitemaps env self"
          using Inr True root
          by (simp add: child_sitemaps_def index_children_append_error)
        moreover from Suc.prems have "list_all (depth_within depth env) (child_sitemaps env self)"
          by simp
        ultimately show ?thesis using Suc.IH by (simp add: list_all_iff)
      qed
      have eq: "validate (Suc depth) env self =
                  (case parse_sitemap depth env ?self1 (content response) of
                     None \<Rightarrow> None
                   | Some (Inl e, self2, tr) \<Rightarrow> Some (validation_failed self2 e, ?rq # tr)
                   | Some (Inr urls, self2, tr) \<Rightarrow>
                       (let self3 = self2\<lparr>results := (results self2)\<lparr>total_urls := int (length urls)\<rparr>\<rparr>
                        in (case validate_urls env self3 urls of
                              (Some e, self4, tr') \<Rightarrow> Some (validation_failed self4 e, ?rq # tr @ tr')
                            | (None, self4, tr') \<Rightarrow> Some (self4, ?rq # tr @ tr'))))"
        using Inr True by (simp add: validate.simps(2) Let_def)
      from parse_sitemap_returns [of env "content response" ?self1 depth, OF children]
      obtain x v tr where p: "parse_sitemap depth env ?self1 (content response) = Some (x, v, tr)"
        by blast
      show ?thesis unfolding eq p by (rule validate_after_parse)
    qed
  qed
qed

lemma str_int_404: "str_int 404 = ''404''"
  by code_simp

lemma demo_index_depth:
  "depth_within (Suc (Suc 0)) demo_env (demo_validator ''https://example.com/sitemap.xml'')"
  by code_simp

text \<open>
  Claim C8. On a new validator, a response to the fetch with a status other than 200 gives
  a report with the counters at zero and the one error \<^verbatim>\<open>Failed to fetch sitemap (HTTP
  <status>)\<close>; an exception raised by the fetch gives a report with the counters at zero
  and the one error \<^verbatim>\<open>Validation failed: <cause>\<close>. In general \<^verbatim>\<open>validate\<close> returns a
  report, and no exception, whenever the tree of sitemap documents below the URL has
  finitely many levels: \<open>depth\<close> levels are resolved by \<open>depth\<close> nested calls.
\<close>

theorem C8_validate_returns_report:
  "(\<forall>response.
      send env (requests_get url ua t) = Inr response \<and> status_code response \<noteq> 200 \<longrightarrow>
      (\<exists>self'.
         validate (Suc depth) env (init url t w ua) = Some (self', [requests_get url ua t])
       \<and> results self' =
           \<lparr>valid_urls = 0, invalid_urls = 0, total_urls = 0,
            errors = [''Failed to fetch sitemap (HTTP '' @ str_int (status_code response) @ '')'']\<rparr>))
   \<and> (\<forall>e.
        send env (requests_get url ua t) = Inl e \<longrightarrow>
        (\<exists>self'.
           validate (Suc depth) env (init url t w ua) = Some (self', [requests_get url ua t])
         \<and> results self' =
             \<lparr>valid_urls = 0, invalid_urls = 0, total_urls = 0,
              errors = [''Validation failed: '' @ message e]\<rparr>))
   \<and> (depth_within depth env self \<longrightarrow> (\<exists>self' tr. validate depth env self = Some (self', tr)))"
proof (intro conjI allI impI)
  fix response
  assume "send env (requests_get url ua t) = Inr response \<and> status_code response \<noteq> 200"
  then have "send env (requests_get (sitemap_url (init url t w ua)) (user_agent (init url t w ua))
               (timeout (init url t w ua))) = Inr response"
    and "status_code response \<noteq> 200"
    by (simp_all add: init_def)
  from validate_not_200 [OF this, of depth]
  show "\<exists>self'.
          validate (Suc depth) env (init url t w ua) = Some (self', [requests_get url ua t])
        \<and> results self' =
            \<lparr>valid_urls = 0, invalid_urls = 0, total_urls = 0,
             errors = [''Failed to fetch sitemap (HTTP '' @ str_int (status_code response) @ '')'']\<rparr>"
    by (simp add: init_def append_error_def)
next
  fix e
  assume "send env (requests_get url ua t) = Inl e"
  then have "send env (requests_get (sitemap_url (init url t w ua)) (user_agent (init url t w ua))
               (timeout (init url t w ua))) = Inl e"
    by (simp add: init_def)
  from validate_fetch_raises [OF this, of depth]
  show "\<exists>self'.
          validate (Suc depth) env (init url t w ua) = Some (self', [requests_get url ua t])
        \<and> results self' =
            \<lparr>valid_urls = 0, invalid_urls = 0, total_urls = 0,
             errors = [''Validation failed: '' @ message e]\<rparr>"
    by (simp add: init_def validation_failed_def append_error_def)
next
  assume "depth_within depth env self"
  then show "\<exists>self' tr. validate depth env self = Some (self', tr)"
    by (rule validate_returns)
qed

theorem C8_witness:
  "(\<exists>self'.
      validate (Suc 0) demo_env (init ''https://example.com/gone.xml'' 10 5 ''ExampleBot/2.0'') =
        Some (self', [requests_get ''https://example.com/gone.xml'' ''ExampleBot/2.0'' 10])
    \<and> results self' =
        \<lparr>valid_urls = 0, invalid_urls = 0, total_urls = 0,
         errors = [''Failed to fetch sitemap (HTTP 404)'']\<rparr>)
   \<and> (\<exists>self'.
        validate (Suc 0) demo_env (init ''https://unreachable.invalid/sitemap.xml'' 10 5 ''ExampleBot/2.0'') =
          Some (self', [requests_get ''https://unreachable.invalid/sitemap.xml'' ''ExampleBot/2.0'' 10])
      \<and> results self' =
          \<lparr>valid_urls = 0, invalid_urls = 0, total_urls = 0,
           errors = [''Validation failed: timed out'']\<rparr>)
   \<and> (\<exists>self' tr.
        validate (Suc (Suc 0)) demo_env (demo_validator ''https://example.com/sitemap.xml'') =
          Some (self', tr))"
proof -
  have a: "send demo_env (requests_get ''https://example.com/gone.xml'' ''ExampleBot/2.0'' 10) =
             Inr not_found \<and> status_code not_found \<noteq> 200"
    by (simp add: demo_env_def demo_send_def requests_get_def not_found_def)
  have b: "send demo_env (requests_get ''https://unreachable.invalid/sitemap.xml'' ''ExampleBot/2.0'' 10) =
             Inl (Exn RequestException ''timed out'')"
    by (simp add: demo_env_def demo_send_def requests_get_def)
  note gone = C8_validate_returns_report
    [where env = demo_env and url = "''https://example.com/gone.xml''" and ua = "''ExampleBot/2.0''"
       and t = 10 and w = 5 and depth = 0, THEN conjunct1, rule_format, OF a]
  note unreachable = C8_validate_returns_report
    [where env = demo_env and url = "''https://unreachable.invalid/sitemap.xml''"
       and ua = "''ExampleBot/2.0''" and t = 10 and w = 5 and depth = 0,
     THEN conjunct2, THEN conjunct1, rule_format, OF b]
  note index = C8_validate_returns_report
    [where env = demo_env and depth = "Suc (Suc 0)"
       and self = "demo_validator ''https://example.com/sitemap.xml''",
     THEN conjunct2, THEN conjunct2, rule_format, OF demo_index_depth]
  from gone unreachable index show ?thesis
    by (simp add: not_found_def str_int_404)
qed

subsection \<open>The total of a urlset\<close>

lemma check_url_total:
  "check_url env self ud = (ex, self', tr) \<Longrightarrow> total_urls (results self') = total_urls (results self)"
  by (auto simp: check_url_def classify_def except_request_def Let_def updates
           split: sum.splits prod.splits if_splits)

lemma run_workers_total:
  "run_workers env self urls = (self', tr) \<Longrightarrow> total_urls (results self') = total_urls (results self)"
proof (induction urls arbitrary: self self' tr)
  case Nil
  then show ?case by simp
next
  case (Cons u us)
  obtain ex s1 tr1 where c: "check_url env self u = (ex, s1, tr1)"
    by (cases "check_url env self u")
  have t1: "total_urls (results s1) = total_urls (results self)"
    using c by (rule check_url_total)
  show ?case
  proof (cases ex)
    case None
    with Cons.prems c obtain tr2 where "run_workers env s1 us = (self', tr2)"
      by (auto split: prod.splits)
    from Cons.IH [OF this] t1 show ?thesis by simp
  next
    case (Some e)
    with Cons.prems c obtain tr2
      where "run_workers env (append_error s1 (''Error during URL validation: '' @ message e)) us =
               (self', tr2)"
      by (auto split: prod.splits)
    from Cons.IH [OF this] t1 show ?thesis by (simp add: append_error_def)
  qed
qed

lemma validate_urls_total:
  "validate_urls env self urls = (ex, self', tr) \<Longrightarrow> total_urls (results self') = total_urls (results self)"
  by (auto simp: validate_urls_def dest: run_workers_total split: if_splits prod.splits)

lemma length_url_entries: "length (url_entries tags) = length (filter has_loc_text tags)"
  by (induction tags) auto

lemma find_single:
  "length (filter P xs) \<le> 1 \<Longrightarrow>
     filter P xs = (case List.find P xs of None \<Rightarrow> [] | Some x \<Rightarrow> [x])"
  by (induction xs) (auto split: if_splits)

lemma single_loc_count:
  assumes "length (loc_children url) \<le> 1"
  shows "length (filter (\<lambda>l. truthy (elem_text l)) (loc_children url)) = (if has_loc_text url then 1 else 0)"
proof -
  have "loc_children url = (case find_child url ''loc'' of None \<Rightarrow> [] | Some l \<Rightarrow> [l])"
    using assms unfolding loc_children_def find_child_def by (rule find_single)
  then show ?thesis by (simp add: has_loc_text_def split: option.splits)
qed

lemma url_loc_count:
  "\<forall>url \<in> set tags. length (loc_children url) \<le> 1 \<Longrightarrow>
     length (filter (\<lambda>l. truthy (elem_text l)) (concat (map loc_children tags))) =
     length (filter has_loc_text tags)"
  by (induction tags) (simp_all add: single_loc_count)

text \<open>
  Claim C3. For a document that is fetched with status 200, parses, and has no
  \<^verbatim>\<open><sitemap>\<close> element, \<^verbatim>\<open>validate\<close> returns with \<open>total_urls\<close> equal to the number of
  \<^verbatim>\<open><url>\<close> elements whose \<^verbatim>\<open><loc>\<close> has a non-empty text; as every \<^verbatim>\<open><url>\<close> of a urlset
  has one \<^verbatim>\<open><loc>\<close> at most, that is the number of \<^verbatim>\<open><url><loc>\<close> elements with non-empty
  text.
\<close>

theorem C3_urlset_total:
  assumes "send env (requests_get (sitemap_url self) (user_agent self) (timeout self)) = Inr response"
    and "status_code response = 200"
    and "fromstring env (content response) = Inr root"
    and "findall root ''sitemap'' = []"
    and "\<forall>url \<in> set (findall root ''url''). length (loc_children url) \<le> 1"
  shows "\<exists>self' tr.
           validate (Suc depth) env self = Some (self', tr)
         \<and> total_urls (results self') = int (length (filter has_loc_text (findall root ''url'')))
         \<and> total_urls (results self') =
             int (length (filter (\<lambda>l. truthy (elem_text l)) (url_loc_elements root)))"
proof -
  let ?rq = "requests_get (sitemap_url self) (user_agent self) (timeout self)"
  let ?ct = "case content_type_header response of None \<Rightarrow> [] | Some v \<Rightarrow> v"
  let ?self1 = "if \<not> contains ''xml'' (lower ?ct)
                then append_error self (''Sitemap is not XML (Content-Type: '' @ ?ct @ '')'')
                else self"
  let ?urls = "url_entries (findall root ''url'')"
  let ?self3 = "?self1\<lparr>results := (results ?self1)\<lparr>total_urls := int (length ?urls)\<rparr>\<rparr>"
  have p: "parse_sitemap depth env ?self1 (content response) = Some (Inr ?urls, ?self1, [])"
    using assms(3,4) by (simp add: parse_sitemap.simps Let_def)
  obtain ex self4 tr where v: "validate_urls env ?self3 ?urls = (ex, self4, tr)"
    by (cases "validate_urls env ?self3 ?urls")
  have t4: "total_urls (results self4) = int (length ?urls)"
    using validate_urls_total [OF v] by simp
  have eq: "validate (Suc depth) env self =
              (case parse_sitemap depth env ?self1 (content response) of
                 None \<Rightarrow> None
               | Some (Inl e, self2, tr) \<Rightarrow> Some (validation_failed self2 e, ?rq # tr)
               | Some (Inr urls, self2, tr) \<Rightarrow>
                   (let self3 = self2\<lparr>results := (results self2)\<lparr>total_urls := int (length urls)\<rparr>\<rparr>
                    in (case validate_urls env self3 urls of
                          (Some e, self4, tr') \<Rightarrow> Some (validation_failed self4 e, ?rq # tr @ tr')
                        | (None, self4, tr') \<Rightarrow> Some (self4, ?rq # tr @ tr'))))"
    using assms(1,2) by (simp add: validate.simps(2) Let_def)
  have "validate (Suc depth) env self =
          Some (case ex of None \<Rightarrow> self4 | Some e \<Rightarrow> validation_failed self4 e, ?rq # tr)"
    unfolding eq p using v by (simp add: Let_def split: option.split)
  moreover have "total_urls (results (case ex of None \<Rightarrow> self4 | Some e \<Rightarrow> validation_failed self4 e)) =
                   int (length ?urls)"
    using t4 by (simp add: validation_failed_def append_error_def split: option.split)
  moreover have "length (filter (\<lambda>l. truthy (elem_text l)) (url_loc_elements root)) =
                   length (filter has_loc_text (findall root ''url''))"
    unfolding url_loc_elements_def using assms(5) by (rule url_loc_count)
  ultimately show ?thesis by (simp add: length_url_entries)
qed

lemma demo_pages_shape:
  "findall demo_pages ''sitemap'' = []"
  "\<forall>url \<in> set (findall demo_pages ''url''). length (loc_children url) \<le> 1"
  "length (filter (\<lambda>l. truthy (elem_text l)) (url_loc_elements demo_pages)) = 1"
  by (simp_all add: demo_pages_def loc_element_def findall_def loc_children_def url_loc_elements_def
      truthy_def sm_def)

theorem C3_witness:
  "\<exists>self' tr.
     validate (Suc 0) demo_env (demo_validator ''https://example.com/pages.xml'') = Some (self', tr)
   \<and> total_urls (results self') = 1"
proof -
  let ?v = "demo_validator ''https://example.com/pages.xml''"
  have s: "send demo_env (requests_get (sitemap_url ?v) (user_agent ?v) (timeout ?v)) =
             Inr (ok_response ''application/xml'' ''PAGES'')"
    by (simp add: demo_env_def demo_send_def requests_get_def demo_validator_def init_def)
  have c: "status_code (ok_response ''application/xml'' ''PAGES'') = 200"
    by (simp add: ok_response_def)
  have f: "fromstring demo_env (content (ok_response ''application/xml'' ''PAGES'')) = Inr demo_pages"
    by (simp add: demo_env_def demo_fromstring_def ok_response_def)
  from C3_urlset_total [OF s c f demo_pages_shape(1,2), of 0]
  show ?thesis by (auto simp: demo_pages_shape(3))
qed

subsection \<open>A sitemap index\<close>

lemma index_children_merge_results:
  "index_children (merge_results self r) tags = index_children self tags"
  by (rule index_children_same) simp_all

lemma index_loop_merges:
  assumes "map (validate depth env) (index_children self tags) = map Some children"
  shows "index_loop depth env self tags =
           Some (foldl merge_results self (map (\<lambda>(c, tr). results c) children),
                 concat (map snd children))"
  using assms
proof (induction tags arbitrary: self children)
  case Nil
  then show ?case by (simp add: index_children_def)
next
  case (Cons t ts)
  show ?case
  proof (cases "has_loc_text t")
    case False
    with Cons.prems have "map (validate depth env) (index_children self ts) = map Some children"
      by (simp add: index_children_def)
    from Cons.IH [OF this] False show ?thesis by simp
  next
    case True
    with Cons.prems obtain child tr rest
      where children: "children = (child, tr) # rest"
        and child: "validate depth env (child_validator self (loc_text t)) = Some (child, tr)"
        and rest: "map (validate depth env) (index_children self ts) = map Some rest"
      by (cases children) (auto simp: index_children_def)
    from rest
    have "map (validate depth env) (index_children (merge_results self (results child)) ts) =
            map Some rest"
      by (simp only: index_children_merge_results)
    from Cons.IH [OF this] True child children show ?thesis by simp
  qed
qed

lemma foldl_merge_results:
  "results (foldl merge_results self rs) =
     \<lparr>valid_urls = valid_urls (results self) + sum_list (map valid_urls rs),
      invalid_urls = invalid_urls (results self) + sum_list (map invalid_urls rs),
      total_urls = total_urls (results self) + sum_list (map total_urls rs),
      errors = errors (results self) @ concat (map errors rs)\<rparr>"
  by (induction rs arbitrary: self) (simp_all add: merge_results_def)

lemma foldl_merge_results_config [simp]:
  "max_workers (foldl merge_results self rs) = max_workers self"
  "user_agent (foldl merge_results self rs) = user_agent self"
  "timeout (foldl merge_results self rs) = timeout self"
  by (induction rs arbitrary: self) simp_all

lemma validate_urls_Nil: "0 < max_workers self \<Longrightarrow> validate_urls env self [] = (None, self, [])"
  by (simp add: validate_urls_def)

text \<open>
  Claim C2. Let a document be fetched with status 200 and an XML content type, let it
  parse and have \<^verbatim>\<open><sitemap>\<close> elements, and let \<^verbatim>\<open>validate\<close> return on each of the child
  validators, \<open>children\<close> being the returned objects and the requests each one sent, in
  document order. Then \<^verbatim>\<open>_parse_sitemap\<close> returns no entries, its requests are those of the
  children one child after the other, and it leaves each of the three counters increased
  by the sum over the children and the errors extended by the children's errors in that
  order. \<^verbatim>\<open>validate\<close> returns after the fetch and these requests, with \<open>valid_urls\<close>,
  \<open>invalid_urls\<close> and the errors as \<^verbatim>\<open>_parse_sitemap\<close> left them: the sums over the children,
  and no error string for the index itself.
\<close>

theorem C2_index_merges_children:
  assumes "send env (requests_get (sitemap_url self) (user_agent self) (timeout self)) = Inr response"
    and "status_code response = 200"
    and "contains ''xml'' (lower (case content_type_header response of None \<Rightarrow> [] | Some v \<Rightarrow> v))"
    and "fromstring env (content response) = Inr root"
    and "findall root ''sitemap'' \<noteq> []"
    and "map (validate depth env) (index_children self (findall root ''sitemap'')) = map Some children"
    and "0 < max_workers self"
  shows "\<exists>self' self''.
           parse_sitemap depth env self (content response) =
             Some (Inr [], self', concat (map snd children))
         \<and> valid_urls (results self') =
             valid_urls (results self) + sum_list (map (\<lambda>(c, tr). valid_urls (results c)) children)
         \<and> invalid_urls (results self') =
             invalid_urls (results self) + sum_list (map (\<lambda>(c, tr). invalid_urls (results c)) children)
         \<and> total_urls (results self') =
             total_urls (results self) + sum_list (map (\<lambda>(c, tr). total_urls (results c)) children)
         \<and> errors (results self') =
             errors (results self) @ concat (map (\<lambda>(c, tr). errors (results c)) children)
         \<and> validate (Suc depth) env self =
             Some (self'', requests_get (sitemap_url self) (user_agent self) (timeout self)
                           # concat (map snd children))
         \<and> valid_urls (results self'') =
             valid_urls (results self) + sum_list (map (\<lambda>(c, tr). valid_urls (results c)) children)
         \<and> invalid_urls (results self'') =
             invalid_urls (results self) + sum_list (map (\<lambda>(c, tr). invalid_urls (results c)) children)
         \<and> errors (results self'') =
             errors (results self) @ concat (map (\<lambda>(c, tr). errors (results c)) children)"
proof -
  let ?rq = "requests_get (sitemap_url self) (user_agent self) (timeout self)"
  let ?rs = "map (\<lambda>(c, tr). results c) children"
  let ?self' = "foldl merge_results self ?rs"
  let ?self'' = "?self'\<lparr>results := (results ?self')\<lparr>total_urls := 0\<rparr>\<rparr>"
  have p: "parse_sitemap depth env self (content response) =
             Some (Inr [], ?self', concat (map snd children))"
    using assms(4,5) index_loop_merges [OF assms(6)] by (simp add: parse_sitemap.simps Let_def)
  have "0 < max_workers ?self''" using assms(7) by simp
  then have u: "validate_urls env ?self'' [] = (None, ?self'', [])" by (rule validate_urls_Nil)
  have v: "validate (Suc depth) env self = Some (?self'', ?rq # concat (map snd children))"
    using assms(1,2,3) p u by (simp add: validate.simps(2) Let_def)
  have m: "map valid_urls ?rs = map (\<lambda>(c, tr). valid_urls (results c)) children"
       "map invalid_urls ?rs = map (\<lambda>(c, tr). invalid_urls (results c)) children"
       "map total_urls ?rs = map (\<lambda>(c, tr). total_urls (results c)) children"
       "map errors ?rs = map (\<lambda>(c, tr). errors (results c)) children"
    by (simp_all add: case_prod_unfold comp_def)
  show ?thesis
    using p v by (simp add: foldl_merge_results m del: map_map)
qed

lemma demo_children_validated:
  "map (validate (Suc 0) demo_env)
     (index_children (demo_validator ''https://example.com/sitemap.xml'') (findall demo_index ''sitemap'')) =
   map Some demo_children"
  by code_simp

lemma demo_index_fetched:
  "send demo_env
     (requests_get (sitemap_url (demo_validator ''https://example.com/sitemap.xml''))
        (user_agent (demo_validator ''https://example.com/sitemap.xml''))
        (timeout (demo_validator ''https://example.com/sitemap.xml''))) =
   Inr (ok_response ''application/xml'' ''INDEX'')"
  "status_code (ok_response ''application/xml'' ''INDEX'') = 200"
  "fromstring demo_env (content (ok_response ''application/xml'' ''INDEX'')) = Inr demo_index"
  "findall demo_index ''sitemap'' \<noteq> []"
  "0 < max_workers (demo_validator ''https://example.com/sitemap.xml'')"
  by (simp_all add: demo_env_def demo_send_def demo_fromstring_def requests_get_def ok_response_def
      demo_validator_def init_def demo_index_def findall_def sm_def)

lemma demo_index_content_type:
  "contains ''xml''
     (lower (case content_type_header (ok_response ''application/xml'' ''INDEX'') of
               None \<Rightarrow> [] | Some v \<Rightarrow> v))"
  by code_simp

theorem C2_witness:
  "\<exists>self''.
     validate (Suc (Suc 0)) demo_env (demo_validator ''https://example.com/sitemap.xml'') =
       Some (self'', requests_get ''https://example.com/sitemap.xml'' ''ExampleBot/2.0'' 10
                     # concat (map snd demo_children))
   \<and> valid_urls (results self'') = 2 \<and> invalid_urls (results self'') = 2
   \<and> errors (results self'') =
       [''Failed to connect to https://example.com/a2: timed out'',
        ''Failed to connect to https://example.com/b2: timed out'']"
proof -
  from C2_index_merges_children
    [OF demo_index_fetched(1,2) demo_index_content_type demo_index_fetched(3,4)
        demo_children_validated demo_index_fetched(5)]
  show ?thesis
    by (auto simp: demo_validator_def init_def demo_children_def demo_child_def)
qed

text \<open>
  Claim C1 fails on the code, and the code is at fault. For an index, \<^verbatim>\<open>_parse_sitemap\<close>
  adds the children's \<open>total_urls\<close> to the aggregate and returns no entries; \<^verbatim>\<open>validate\<close>
  then assigns the number of returned entries, zero, to \<open>total_urls\<close>. On the scenario of
  the specification, an index of two urlsets with one reachable page and one page that
  times out in each, the report has two valid and two invalid URLs and a total of zero.
\<close>

theorem C1_index_total_overwritten:
  "map_option (\<lambda>(self', tr). results self')
     (validate (Suc (Suc 0)) demo_env (demo_validator ''https://example.com/sitemap.xml'')) =
   Some \<lparr>valid_urls = 2, invalid_urls = 2, total_urls = 0,
         errors = [''Failed to connect to https://example.com/a2: timed out'',
                   ''Failed to connect to https://example.com/b2: timed out'']\<rparr>"
  by code_simp

subsection \<open>The User-Agent header\<close>

lemma check_url_user_agent:
  "check_url env self ud = (ex, self', tr) \<Longrightarrow>
     (\<forall>r \<in> set tr. req_user_agent r = user_agent self) \<and> user_agent self' = user_agent self"
  by (auto simp: check_url_def classify_def except_request_def Let_def updates
                 requests_head_def requests_get_def
           split: sum.splits prod.splits if_splits)

lemma run_workers_user_agent:
  "run_workers env self urls = (self', tr) \<Longrightarrow>
     (\<forall>r \<in> set tr. req_user_agent r = user_agent self) \<and> user_agent self' = user_agent self"
proof (induction urls arbitrary: self self' tr)
  case Nil
  then show ?case by simp
next
  case (Cons u us)
  obtain ex s1 tr1 where c: "check_url env self u = (ex, s1, tr1)"
    by (cases "check_url env self u")
  note c1 = check_url_user_agent [OF c]
  show ?case
  proof (cases ex)
    case None
    with Cons.prems c obtain tr2 where r: "run_workers env s1 us = (self', tr2)" and "tr = tr1 @ tr2"
      by (auto split: prod.splits)
    with Cons.IH [OF r] c1 show ?thesis by auto
  next
    case (Some e)
    let ?s = "append_error s1 (''Error during URL validation: '' @ message e)"
    from Some Cons.prems c obtain tr2 where r: "run_workers env ?s us = (self', tr2)" and "tr = tr1 @ tr2"
      by (auto split: prod.splits)
    with Cons.IH [OF r] c1 show ?thesis by auto
  qed
qed

lemma validate_urls_user_agent:
  "validate_urls env self urls = (ex, self', tr) \<Longrightarrow> \<forall>r \<in> set tr. req_user_agent r = user_agent self"
  by (auto simp: validate_urls_def dest: run_workers_user_agent split: if_splits prod.splits)

lemma child_validator_fields:
  "user_agent (child_validator self l) = default_user_agent"
  "timeout (child_validator self l) = timeout self"
  "max_workers (child_validator self l) = max_workers self"
  by (simp_all add: child_validator_def init_def)

lemma index_loop_user_agent:
  assumes "\<forall>c v tr. validate depth env c = Some (v, tr) \<longrightarrow>
             (\<forall>r \<in> set tr. req_user_agent r = user_agent c \<or> req_user_agent r = default_user_agent)"
    and "index_loop depth env self tags = Some (self', tr)"
  shows "(\<forall>r \<in> set tr. req_user_agent r = default_user_agent) \<and> user_agent self' = user_agent self"
  using assms(2)
proof (induction tags arbitrary: self self' tr)
  case Nil
  then show ?case by simp
next
  case (Cons t ts)
  show ?case
  proof (cases "has_loc_text t")
    case False
    with Cons.prems have "index_loop depth env self ts = Some (self', tr)" by simp
    then show ?thesis by (rule Cons.IH)
  next
    case True
    with Cons.prems obtain child tr1 tr2
      where child: "validate depth env (child_validator self (loc_text t)) = Some (child, tr1)"
        and rest: "index_loop depth env (merge_results self (results child)) ts = Some (self', tr2)"
        and tr: "tr = tr1 @ tr2"
      by (auto split: option.splits)
    from assms(1) child have "\<forall>r \<in> set tr1. req_user_agent r = default_user_agent"
      by (fastforce simp: child_validator_fields)
    with Cons.IH [OF rest] tr show ?thesis by auto
  qed
qed

lemma parse_sitemap_user_agent:
  assumes "\<forall>c v tr. validate depth env c = Some (v, tr) \<longrightarrow>
             (\<forall>r \<in> set tr. req_user_agent r = user_agent c \<or> req_user_agent r = default_user_agent)"
    and "parse_sitemap depth env self body = Some (x, self', tr)"
  shows "(\<forall>r \<in> set tr. req_user_agent r = default_user_agent) \<and> user_agent self' = user_agent self"
proof (cases "fromstring env body")
  case (Inl e)
  with assms(2) show ?thesis by (simp add: parse_sitemap.simps)
next
  case (Inr root)
  show ?thesis
  proof (cases "findall root ''sitemap'' = []")
    case True
    with Inr assms(2) show ?thesis by (simp add: parse_sitemap.simps)
  next
    case False
    with Inr assms(2) have "index_loop depth env self (findall root ''sitemap'') = Some (self', tr)"
      by (auto simp: parse_sitemap.simps Let_def split: option.splits)
    with assms(1) show ?thesis by (rule index_loop_user_agent)
  qed
qed

lemma validate_trace:
  assumes "\<forall>c v tr. validate depth env c = Some (v, tr) \<longrightarrow>
             (\<forall>r \<in> set tr. req_user_agent r = user_agent c \<or> req_user_agent r = default_user_agent)"
    and "validate (Suc depth) env self = Some (self', tr)"
  shows "\<exists>tr_children tr_leaves.
           tr = requests_get (sitemap_url self) (user_agent self) (timeout self) # tr_children @ tr_leaves
         \<and> (\<forall>r \<in> set tr_children. req_user_agent r = default_user_agent)
         \<and> (\<forall>r \<in> set tr_leaves. req_user_agent r = user_agent self)"
proof -
  let ?rq = "requests_get (sitemap_url self) (user_agent self) (timeout self)"
  show ?thesis
  proof (cases "send env ?rq")
    case (Inl e)
    with assms(2) have "tr = ?rq # [] @ []" by (simp add: validate_fetch_raises)
    then show ?thesis by (intro exI [of _ "[]"]) simp
  next
    case (Inr response)
    show ?thesis
    proof (cases "status_code response = 200")
      case False
      with Inr assms(2) have "tr = ?rq # [] @ []" by (simp add: validate_not_200)
      then show ?thesis by (intro exI [of _ "[]"]) simp
    next
      case True
      let ?ct = "case content_type_header response of None \<Rightarrow> [] | Some v \<Rightarrow> v"
      let ?self1 = "if \<not> contains ''xml'' (lower ?ct)
                    then append_error self (''Sitemap is not XML (Content-Type: '' @ ?ct @ '')'')
                    else self"
      have eq: "validate (Suc depth) env self =
                  (case parse_sitemap depth env ?self1 (content response) of
                     None \<Rightarrow> None
                   | Some (Inl e, self2, tr) \<Rightarrow> Some (validation_failed self2 e, ?rq # tr)
                   | Some (Inr urls, self2, tr) \<Rightarrow>
                       (let self3 = self2\<lparr>results := (results self2)\<lparr>total_urls := int (length urls)\<rparr>\<rparr>
                        in (case validate_urls env self3 urls of
                              (Some e, self4, tr') \<Rightarrow> Some (validation_failed self4 e, ?rq # tr @ tr')
                            | (None, self4, tr') \<Rightarrow> Some (self4, ?rq # tr @ tr'))))"
        using Inr True by (simp add: validate.simps(2) Let_def)
      from assms(2) obtain x self2 tr1
        where p: "parse_sitemap depth env ?self1 (content response) = Some (x, self2, tr1)"
        unfolding eq by (cases "parse_sitemap depth env ?self1 (content response)") auto
      from parse_sitemap_user_agent [OF assms(1) p]
      have c: "\<forall>r \<in> set tr1. req_user_agent r = default_user_agent"
        and ua2: "user_agent self2 = user_agent self"
        by simp_all
      show ?thesis
      proof (cases x)
        case (Inl e)
        with assms(2) p have "tr = ?rq # tr1 @ []" unfolding eq by simp
        with c show ?thesis by (intro exI [of _ tr1] exI [of _ "[]"]) simp
      next
        case (Inr urls)
        let ?self3 = "self2\<lparr>results := (results self2)\<lparr>total_urls := int (length urls)\<rparr>\<rparr>"
        obtain ex self4 tr2 where v: "validate_urls env ?self3 urls = (ex, self4, tr2)"
          by (cases "validate_urls env ?self3 urls")
        from validate_urls_user_agent [OF v] ua2
        have l: "\<forall>r \<in> set tr2. req_user_agent r = user_agent self" by simp
        from assms(2) p Inr v have "tr = ?rq # tr1 @ tr2"
          unfolding eq by (cases ex) (simp_all add: Let_def)
        with c l show ?thesis by (intro exI [of _ tr1] exI [of _ tr2]) simp
      qed
    qed
  qed
qed

lemma validate_user_agent:
  "validate depth env self = Some (self', tr) \<Longrightarrow>
     \<forall>r \<in> set tr. req_user_agent r = user_agent self \<or> req_user_agent r = default_user_agent"
proof (induction depth arbitrary: self self' tr)
  case 0
  then show ?case by simp
next
  case (Suc depth)
  from Suc.IH
  have "\<forall>c v tr. validate depth env c = Some (v, tr) \<longrightarrow>
          (\<forall>r \<in> set tr. req_user_agent r = user_agent c \<or> req_user_agent r = default_user_agent)"
    by blast
  from validate_trace [OF this Suc.prems]
  obtain tr_children tr_leaves
    where "tr = requests_get (sitemap_url self) (user_agent self) (timeout self) # tr_children @ tr_leaves"
      and "\<forall>r \<in> set tr_children. req_user_agent r = default_user_agent"
      and "\<forall>r \<in> set tr_leaves. req_user_agent r = user_agent self"
    by blast
  then show ?case by (auto simp: requests_get_def)
qed

text \<open>
  Claim C10. A child validator takes the timeout and the pool size of its parent and the
  default \<^verbatim>\<open>User-Agent\<close>. Hence every request \<^verbatim>\<open>_parse_sitemap\<close> causes, that is, every
  fetch of a child sitemap and every check of a leaf URL below the top level, carries
  \<^verbatim>\<open>SitemapValidator/1.0\<close>, whatever the top-level validator was configured with. The
  requests of a \<^verbatim>\<open>validate\<close> call are its own fetch, with the configured value, then those
  made for the children, with the default, then its own leaf checks, with the configured
  value.
\<close>

theorem C10_children_use_default_user_agent:
  "user_agent (child_validator self l) = ''SitemapValidator/1.0''
   \<and> timeout (child_validator self l) = timeout self
   \<and> max_workers (child_validator self l) = max_workers self
   \<and> (parse_sitemap depth env self body = Some (x, self1, tr1) \<longrightarrow>
        (\<forall>r \<in> set tr1. req_user_agent r = ''SitemapValidator/1.0''))
   \<and> (validate_urls env self urls = (ex, self2, tr2) \<longrightarrow>
        (\<forall>r \<in> set tr2. req_user_agent r = user_agent self))
   \<and> (validate (Suc depth) env self = Some (self3, tr3) \<longrightarrow>
        (\<exists>tr_children tr_leaves.
           tr3 = requests_get (sitemap_url self) (user_agent self) (timeout self)
                 # tr_children @ tr_leaves
         \<and> (\<forall>r \<in> set tr_children. req_user_agent r = ''SitemapValidator/1.0'')
         \<and> (\<forall>r \<in> set tr_leaves. req_user_agent r = user_agent self)))"
proof -
  have ih: "\<forall>c v tr. validate depth env c = Some (v, tr) \<longrightarrow>
              (\<forall>r \<in> set tr. req_user_agent r = user_agent c \<or> req_user_agent r = default_user_agent)"
    using validate_user_agent by blast
  have "parse_sitemap depth env self body = Some (x, self1, tr1) \<longrightarrow>
          (\<forall>r \<in> set tr1. req_user_agent r = default_user_agent)"
    using parse_sitemap_user_agent [OF ih] by blast
  moreover have "validate_urls env self urls = (ex, self2, tr2) \<longrightarrow>
                   (\<forall>r \<in> set tr2. req_user_agent r = user_agent self)"
    using validate_urls_user_agent by blast
  moreover have "validate (Suc depth) env self = Some (self3, tr3) \<longrightarrow>
        (\<exists>tr_children tr_leaves.
           tr3 = requests_get (sitemap_url self) (user_agent self) (timeout self)
                 # tr_children @ tr_leaves
         \<and> (\<forall>r \<in> set tr_children. req_user_agent r = default_user_agent)
         \<and> (\<forall>r \<in> set tr_leaves. req_user_agent r = user_agent self))"
    using validate_trace [OF ih] by blast
  ultimately show ?thesis
    using child_validator_fields [of self l] by (simp add: default_user_agent_def)
qed

lemma demo_index_parsed:
  "parse_sitemap (Suc 0) demo_env (demo_validator ''https://example.com/sitemap.xml'') ''INDEX'' =
     Some (Inr [],
           foldl merge_results (demo_validator ''https://example.com/sitemap.xml'')
             (map (\<lambda>(c, tr). results c) demo_children),
           concat (map snd demo_children))"
  using index_loop_merges [OF demo_children_validated] demo_index_fetched(4)
  by (simp add: parse_sitemap.simps Let_def demo_env_def demo_fromstring_def)

lemma demo_index_validated:
  "validate (Suc (Suc 0)) demo_env (demo_validator ''https://example.com/sitemap.xml'') =
     Some (\<lparr>sitemap_url = ''https://example.com/sitemap.xml'', timeout = 10, max_workers = 5,
            user_agent = ''ExampleBot/2.0'',
            results = \<lparr>valid_urls = 2, invalid_urls = 2, total_urls = 0,
                       errors = [''Failed to connect to https://example.com/a2: timed out'',
                                 ''Failed to connect to https://example.com/b2: timed out'']\<rparr>,
            all_processed_urls = []\<rparr>,
           requests_get ''https://example.com/sitemap.xml'' ''ExampleBot/2.0'' 10
           # concat (map snd demo_children))"
  by code_simp

theorem C10_witness:
  "user_agent (demo_validator ''https://example.com/sitemap.xml'') = ''ExampleBot/2.0''
   \<and> parse_sitemap (Suc 0) demo_env (demo_validator ''https://example.com/sitemap.xml'') ''INDEX'' =
       Some (Inr [],
             foldl merge_results (demo_validator ''https://example.com/sitemap.xml'')
               (map (\<lambda>(c, tr). results c) demo_children),
             concat (map snd demo_children))
   \<and> list_all (\<lambda>r. req_user_agent r = ''SitemapValidator/1.0'') (concat (map snd demo_children))
   \<and> list_all (\<lambda>r. req_user_agent r = ''ExampleBot/2.0'')
        (snd (snd (validate_urls demo_env (demo_validator ''https://example.com/pages.xml'')
                     [entry ''https://example.com/a1''])))
   \<and> (\<exists>tr_children tr_leaves.
        map_option snd (validate (Suc (Suc 0)) demo_env (demo_validator ''https://example.com/sitemap.xml'')) =
          Some (requests_get ''https://example.com/sitemap.xml'' ''ExampleBot/2.0'' 10
                # tr_children @ tr_leaves)
      \<and> list_all (\<lambda>r. req_user_agent r = ''SitemapValidator/1.0'') tr_children
      \<and> list_all (\<lambda>r. req_user_agent r = ''ExampleBot/2.0'') tr_leaves)"
proof -
  let ?v = "demo_validator ''https://example.com/sitemap.xml''"
  let ?p = "demo_validator ''https://example.com/pages.xml''"
  let ?leaf = "validate_urls demo_env ?p [entry ''https://example.com/a1'']"
  have ua: "user_agent ?v = ''ExampleBot/2.0''" "sitemap_url ?v = ''https://example.com/sitemap.xml''"
    "timeout ?v = 10" "user_agent ?p = ''ExampleBot/2.0''"
    by (simp_all add: demo_validator_def init_def)
  from C10_children_use_default_user_agent
      [where depth = "Suc 0" and env = demo_env and self = ?v and body = "''INDEX''",
       THEN conjunct2, THEN conjunct2, THEN conjunct2, THEN conjunct1, THEN mp,
       OF demo_index_parsed]
  have children: "list_all (\<lambda>r. req_user_agent r = ''SitemapValidator/1.0'')
                    (concat (map snd demo_children))"
    by (simp only: list_all_iff)
  from C10_children_use_default_user_agent
      [where env = demo_env and self = ?p and urls = "[entry ''https://example.com/a1'']"
         and ex = "fst ?leaf" and ?self2.0 = "fst (snd ?leaf)" and ?tr2.0 = "snd (snd ?leaf)",
       THEN conjunct2, THEN conjunct2, THEN conjunct2, THEN conjunct2, THEN conjunct1, THEN mp]
  have leaves: "list_all (\<lambda>r. req_user_agent r = ''ExampleBot/2.0'') (snd (snd ?leaf))"
    by (simp add: list_all_iff ua)
  from C10_children_use_default_user_agent
      [where depth = "Suc 0" and env = demo_env and self = ?v,
       THEN conjunct2, THEN conjunct2, THEN conjunct2, THEN conjunct2, THEN conjunct2, THEN mp,
       OF demo_index_validated]
  obtain tr_children tr_leaves
    where "requests_get ''https://example.com/sitemap.xml'' ''ExampleBot/2.0'' 10
             # concat (map snd demo_children) =
           requests_get ''https://example.com/sitemap.xml'' ''ExampleBot/2.0'' 10
             # tr_children @ tr_leaves"
      and "list_all (\<lambda>r. req_user_agent r = ''SitemapValidator/1.0'') tr_children"
      and "list_all (\<lambda>r. req_user_agent r = ''ExampleBot/2.0'') tr_leaves"
    unfolding ua list_all_iff by blast
  with demo_index_validated
  have top: "\<exists>tr_children tr_leaves.
        map_option snd (validate (Suc (Suc 0)) demo_env ?v) =
          Some (requests_get ''https://example.com/sitemap.xml'' ''ExampleBot/2.0'' 10
                # tr_children @ tr_leaves)
      \<and> list_all (\<lambda>r. req_user_agent r = ''SitemapValidator/1.0'') tr_children
      \<and> list_all (\<lambda>r. req_user_agent r = ''ExampleBot/2.0'') tr_leaves"
    by (intro exI [of _ tr_children] exI [of _ tr_leaves]) simp
  from ua(1) demo_index_parsed children leaves top show ?thesis by blast
qed

subsection \<open>Where the counters do reconcile, and where the recursion does not end\<close>

text \<open>
  For a urlset the counters reconcile, provided no exception leaves a worker: the URL
  parser does not raise and the HTTP library raises nothing but \<^verbatim>\<open>RequestException\<close>.
\<close>

lemma check_url_counts:
  assumes "\<forall>u. \<exists>p. urlparse env u = Inr p"
    and "\<forall>rq e. send env rq = Inl e \<longrightarrow> exn_class e = RequestException"
  shows "\<exists>self' tr.
           check_url env self ud = (None, self', tr)
         \<and> valid_urls (results self') + invalid_urls (results self') =
             valid_urls (results self) + invalid_urls (results self) + 1
         \<and> total_urls (results self') = total_urls (results self)"
proof -
  obtain scheme netloc where p: "urlparse env (loc ud) = Inr (scheme, netloc)"
    using assms(1) by (metis surj_pair)
  show ?thesis
    using p assms(2)
    by (auto simp: check_url_def classify_def except_request_def Let_def updates split: sum.splits)
qed

lemma run_workers_counts:
  assumes "\<forall>u. \<exists>p. urlparse env u = Inr p"
    and "\<forall>rq e. send env rq = Inl e \<longrightarrow> exn_class e = RequestException"
  shows "\<exists>self' tr.
           run_workers env self urls = (self', tr)
         \<and> valid_urls (results self') + invalid_urls (results self') =
             valid_urls (results self) + invalid_urls (results self) + int (length urls)
         \<and> total_urls (results self') = total_urls (results self)"
proof (induction urls arbitrary: self)
  case Nil
  show ?case by simp
next
  case (Cons u us)
  from check_url_counts [OF assms, of self u]
  obtain s1 tr1 where c: "check_url env self u = (None, s1, tr1)"
    and c1: "valid_urls (results s1) + invalid_urls (results s1) =
               valid_urls (results self) + invalid_urls (results self) + 1"
    and t1: "total_urls (results s1) = total_urls (results self)"
    by blast
  from Cons.IH [of s1]
  obtain s2 tr2 where r: "run_workers env s1 us = (s2, tr2)"
    and c2: "valid_urls (results s2) + invalid_urls (results s2) =
               valid_urls (results s1) + invalid_urls (results s1) + int (length us)"
    and t2: "total_urls (results s2) = total_urls (results s1)"
    by blast
  from c r have "run_workers env self (u # us) = (s2, tr1 @ tr2)" by simp
  with c1 c2 t1 t2 show ?case by simp
qed

lemma urlset_counts_reconcile:
  assumes "send env (requests_get url ua t) = Inr response"
    and "status_code response = 200"
    and "fromstring env (content response) = Inr root"
    and "findall root ''sitemap'' = []"
    and "0 < w"
    and "\<forall>u. \<exists>p. urlparse env u = Inr p"
    and "\<forall>rq e. send env rq = Inl e \<longrightarrow> exn_class e = RequestException"
  shows "\<exists>self' tr.
           validate (Suc depth) env (init url t w ua) = Some (self', tr)
         \<and> valid_urls (results self') + invalid_urls (results self') = total_urls (results self')"
proof -
  let ?self = "init url t w ua"
  let ?rq = "requests_get (sitemap_url ?self) (user_agent ?self) (timeout ?self)"
  let ?ct = "case content_type_header response of None \<Rightarrow> [] | Some v \<Rightarrow> v"
  let ?self1 = "if \<not> contains ''xml'' (lower ?ct)
                then append_error ?self (''Sitemap is not XML (Content-Type: '' @ ?ct @ '')'')
                else ?self"
  let ?urls = "url_entries (findall root ''url'')"
  let ?self3 = "?self1\<lparr>results := (results ?self1)\<lparr>total_urls := int (length ?urls)\<rparr>\<rparr>"
  have s: "send env ?rq = Inr response" using assms(1) by (simp add: init_def)
  have p: "parse_sitemap depth env ?self1 (content response) = Some (Inr ?urls, ?self1, [])"
    using assms(3,4) by (simp add: parse_sitemap.simps Let_def)
  from run_workers_counts [OF assms(6,7), of ?self3 ?urls]
  obtain self4 tr where r: "run_workers env ?self3 ?urls = (self4, tr)"
    and c: "valid_urls (results self4) + invalid_urls (results self4) =
              valid_urls (results ?self3) + invalid_urls (results ?self3) + int (length ?urls)"
    and t: "total_urls (results self4) = total_urls (results ?self3)"
    by blast
  have w: "0 < max_workers ?self3" using assms(5) by (simp add: init_def)
  have v: "validate_urls env ?self3 ?urls = (None, self4, tr)"
    using r w by (simp add: validate_urls_def)
  have "validate (Suc depth) env ?self = Some (self4, ?rq # tr)"
    using s assms(2) p v by (simp add: validate.simps(2) Let_def)
  moreover have "valid_urls (results self4) + invalid_urls (results self4) = total_urls (results self4)"
    using c t by (simp add: init_def append_error_def)
  ultimately show ?thesis by blast
qed

text \<open>
  The recursion has no bound of its own: on the index that lists itself, \<^verbatim>\<open>validate\<close> does
  not return within any depth.
\<close>

lemma demo_loop_shape:
  "findall demo_loop ''sitemap'' =
     [Element (sm ''sitemap'') None [loc_element ''https://example.com/loop.xml'']]"
  "has_loc_text (Element (sm ''sitemap'') None [loc_element ''https://example.com/loop.xml''])"
  "loc_text (Element (sm ''sitemap'') None [loc_element ''https://example.com/loop.xml'']) =
     ''https://example.com/loop.xml''"
  by (simp_all add: demo_loop_def findall_def loc_element_def has_loc_text_def loc_text_def
      find_child_def truthy_def sm_def)

lemma validate_loop_never_returns:
  "validate depth demo_env (init ''https://example.com/loop.xml'' t w ua) = None"
proof (induction depth arbitrary: t w ua)
  case 0
  show ?case by simp
next
  case (Suc depth)
  let ?self = "init ''https://example.com/loop.xml'' t w ua"
  have child: "child_validator s ''https://example.com/loop.xml'' =
                 init ''https://example.com/loop.xml'' (timeout s) (max_workers s) default_user_agent" for s
    by (simp add: child_validator_def)
  have f: "fromstring demo_env ''LOOP'' = Inr demo_loop"
    by (simp add: demo_env_def demo_fromstring_def)
  have g: "send demo_env (requests_get ''https://example.com/loop.xml'' ua t) =
             Inr (ok_response ''application/xml'' ''LOOP'')"
    by (simp add: demo_env_def demo_send_def requests_get_def)
  have "parse_sitemap depth demo_env s ''LOOP'' = None" for s
    by (simp add: parse_sitemap.simps f Let_def demo_loop_shape child Suc.IH)
  then show ?case
    by (simp add: validate.simps(2) Let_def init_def g ok_response_def)
qed

end
